theory Spec2Isabelle
  imports Complex_Main "HOL-Library.AList"
begin

section \<open>JavaScript values used by server.js\<close>

text \<open>
  A JavaScript number is modelled as an exact rational extended with the three special
  values of IEEE arithmetic that the progress formula can produce: \<open>Infinity\<close>,
  \<open>-Infinity\<close> and \<open>NaN\<close>. The rounding error of finite double arithmetic is not
  modelled, and there is no negative zero.
\<close>

datatype jsnum = Fin rat | PInf | NInf | NaN

text \<open>\<open>a / b\<close> on two finite numbers: a zero divisor gives an infinity or \<open>NaN\<close>.\<close>

definition js_div :: "rat \<Rightarrow> rat \<Rightarrow> jsnum" where
  "js_div a b =
     (if b = 0 then (if a = 0 then NaN else if 0 < a then PInf else NInf)
      else Fin (a / b))"

text \<open>\<open>x * c\<close> for a finite right operand \<open>c\<close>.\<close>

fun js_times :: "jsnum \<Rightarrow> rat \<Rightarrow> jsnum" where
  "js_times (Fin a) c = Fin (a * c)"
| "js_times PInf c = (if c = 0 then NaN else if 0 < c then PInf else NInf)"
| "js_times NInf c = (if c = 0 then NaN else if 0 < c then NInf else PInf)"
| "js_times NaN c = NaN"

text \<open>\<open>Math.round\<close>: the nearest integer, a tie going up; special values are kept.\<close>

fun Math_round :: "jsnum \<Rightarrow> jsnum" where
  "Math_round (Fin a) = Fin (of_int \<lfloor>a + 1 / 2\<rfloor>)"
| "Math_round x = x"

text \<open>\<open>Math.min(c, x)\<close> for a finite first argument \<open>c\<close>: \<open>NaN\<close> is contagious.\<close>

fun Math_min :: "rat \<Rightarrow> jsnum \<Rightarrow> jsnum" where
  "Math_min c (Fin a) = Fin (min c a)"
| "Math_min c PInf = Fin c"
| "Math_min c NInf = NInf"
| "Math_min c NaN = NaN"

text \<open>\<open>x > c\<close> and \<open>x >= c\<close>: every comparison with \<open>NaN\<close> is false.\<close>

fun js_gt :: "jsnum \<Rightarrow> rat \<Rightarrow> bool" where
  "js_gt (Fin a) c = (c < a)"
| "js_gt PInf c = True"
| "js_gt NInf c = False"
| "js_gt NaN c = False"

fun js_ge :: "jsnum \<Rightarrow> rat \<Rightarrow> bool" where
  "js_ge (Fin a) c = (c \<le> a)"
| "js_ge PInf c = True"
| "js_ge NInf c = False"
| "js_ge NaN c = False"

text \<open>
  Values that travel through request bodies, parsed configuration files and responses.
  An object is an association list. \<open>JIso t\<close> stands for the ISO-8601 text that
  \<open>new Date(t).toISOString()\<close> produces for the time value \<open>t\<close>.
\<close>

datatype json =
    JNull
  | JBool bool
  | JNum jsnum
  | JStr string
  | JIso int
  | JArr "json list"
  | JObj "(string \<times> json) list"

datatype exn = RangeError | TypeError

section \<open>Configuration and upload records\<close>

record settings =
  uploadFailureRate :: rat
  timeoutRate :: rat
  processingFailureRate :: rat
  minProcessingTime :: rat
  maxProcessingTime :: rat

definition CONFIG :: settings where
  "CONFIG = \<lparr> uploadFailureRate = 15 / 100, timeoutRate = 1 / 10,
              processingFailureRate = 1 / 10, minProcessingTime = 5000,
              maxProcessingTime = 20000 \<rparr>"

datatype status = Queued | Processing | Completed | Failed

fun status_str :: "status \<Rightarrow> string" where
  "status_str Queued = ''queued''"
| "status_str Processing = ''processing''"
| "status_str Completed = ''completed''"
| "status_str Failed = ''failed''"

text \<open>
  The object stored in the \<open>uploads\<close> map. \<open>completedAt\<close> is absent (\<open>undefined\<close>)
  until the record completes; \<open>transcript\<close> and \<open>error\<close> start as \<open>null\<close>.
\<close>

record upload =
  id_u :: string
  filename :: string
  mimeType :: string
  size_u :: nat
  metadata :: "(string \<times> json) list"
  status :: status
  progress :: jsnum
  createdAt :: int
  completesAt :: rat
  willFail :: bool
  transcript :: "string option"
  error :: "string option"
  completedAt :: "int option"

section \<open>Transcript generation\<close>

definition sentences :: "string list" where
  "sentences =
     [''Hello and welcome to this recording.'',
      ''Today we'll be discussing some important topics.'',
      ''Let me start by introducing the main points.'',
      ''First, we need to consider the background.'',
      ''The key insight here is quite interesting.'',
      ''Moving on to the next section.'',
      ''This brings us to our conclusion.'',
      ''Thank you for listening.'']"

text \<open>\<open>xs.slice(0, e)\<close>: a negative end counts from the end of the array.\<close>

definition slice0 :: "'a list \<Rightarrow> int \<Rightarrow> 'a list" where
  "slice0 xs e = (if e < 0 then take (nat (int (length xs) + e)) xs else take (nat e) xs)"

fun join :: "string \<Rightarrow> string list \<Rightarrow> string" where
  "join sep [] = []"
| "join sep [x] = x"
| "join sep (x # y # ys) = x @ sep @ join sep (y # ys)"

text \<open>The argument \<open>r\<close> is the value that \<open>Math.random()\<close> returns.\<close>

definition generateMockTranscript :: "rat \<Rightarrow> string" where
  "generateMockTranscript r = join '' '' (slice0 sentences (3 + \<lfloor>r * 5\<rfloor>))"

section \<open>One tick of the progress interval\<close>

definition failure_message :: string where
  "failure_message = ''Transcription failed: Unable to process audio''"

definition compute_progress :: "rat \<Rightarrow> int \<Rightarrow> int \<Rightarrow> jsnum" where
  "compute_progress totalTime created now =
     Math_min 100 (Math_round (js_times (js_div (of_int (now - created)) totalTime) 100))"

text \<open>
  The body of the interval callback once the record has been found. \<open>now\<close> is the
  \<open>Date.now()\<close> that gives \<open>elapsed\<close>, \<open>now2\<close> the later \<open>Date.now()\<close> stored as
  \<open>completedAt\<close>, \<open>r\<close> the random draw of the transcript. The result is the record
  after the callback has run to completion, and whether \<open>clearInterval\<close> was called.
\<close>

definition tick_record :: "rat \<Rightarrow> int \<Rightarrow> int \<Rightarrow> rat \<Rightarrow> upload \<Rightarrow> upload \<times> bool" where
  "tick_record totalTime now now2 r record =
     (let p = compute_progress totalTime (createdAt record) now;
          record1 = (if status record = Queued \<and> js_gt p 5
                     then record\<lparr>status := Processing\<rparr> else record);
          record2 = record1\<lparr>progress := p\<rparr>
      in if js_ge p 100 then
           (if willFail record2
            then (record2\<lparr>status := Failed, error := Some failure_message,
                           progress := progress record2\<rparr>, True)
            else (record2\<lparr>status := Completed, progress := Fin 100,
                           completedAt := Some now2,
                           transcript := Some (generateMockTranscript r)\<rparr>, True))
         else (record2, False))"

section \<open>Requests and responses\<close>

text \<open>A file as the multipart middleware delivers it (memory storage).\<close>

record multer_file =
  originalname :: string
  mimetype :: string
  size_f :: nat
  buffer :: string

record req_files =
  audio :: "multer_file list option"
  config :: "multer_file list option"

record request =
  files :: "req_files option"
  body :: "(string \<times> json) list"

text \<open>
  A response: the status code, the JSON body, and the artificial delay in milliseconds
  that the handler waited before it answered.
\<close>

record response =
  code :: nat
  rbody :: json
  waited :: rat

definition SUPPORTED_AUDIO_TYPES :: "string list" where
  "SUPPORTED_AUDIO_TYPES =
     [''audio/mp4'', ''audio/x-m4a'', ''audio/m4a'', ''audio/wav'', ''audio/x-wav'']"

text \<open>\<open>files.audio[0]\<close> behind the guards \<open>!files || !files.audio || !files.audio[0]\<close>.\<close>

definition first_audio :: "req_files option \<Rightarrow> multer_file option" where
  "first_audio fs =
     (case fs of None \<Rightarrow> None
      | Some f \<Rightarrow> (case audio f of None \<Rightarrow> None | Some [] \<Rightarrow> None | Some (a # _) \<Rightarrow> Some a))"

text \<open>\<open>req.files?.config?.[0]\<close>.\<close>

definition first_config :: "req_files option \<Rightarrow> multer_file option" where
  "first_config fs =
     (case fs of None \<Rightarrow> None
      | Some f \<Rightarrow> (case config f of None \<Rightarrow> None | Some [] \<Rightarrow> None | Some (a # _) \<Rightarrow> Some a))"

fun truthy :: "json \<Rightarrow> bool" where
  "truthy JNull = False"
| "truthy (JBool b) = b"
| "truthy (JNum (Fin a)) = (a \<noteq> 0)"
| "truthy (JNum NaN) = False"
| "truthy (JNum x) = True"
| "truthy (JStr s) = (s \<noteq> [])"
| "truthy x = True"

text \<open>\<open>obj.key || d\<close>, where a missing key reads as \<open>undefined\<close>.\<close>

definition or_default :: "json option \<Rightarrow> json \<Rightarrow> json" where
  "or_default v d = (case v of None \<Rightarrow> d | Some x \<Rightarrow> if truthy x then x else d)"

text \<open>Decimal text of an array index, as a property key.\<close>

fun index_key :: "nat \<Rightarrow> string" where
  "index_key n =
     (if n < 10 then [''0123456789'' ! n]
      else index_key (n div 10) @ [''0123456789'' ! (n mod 10)])"

text \<open>
  The own enumerable properties that an object spread \<open>{...v}\<close> copies: the entries of
  an object, the indexed elements of an array, the indexed characters of a string, and
  nothing for the other values.
\<close>

fun own_props :: "json \<Rightarrow> (string \<times> json) list" where
  "own_props (JObj kvs) = kvs"
| "own_props (JArr xs) = map (\<lambda>(i, x). (index_key i, x)) (enumerate 0 xs)"
| "own_props (JStr s) = map (\<lambda>(i, c). (index_key i, JStr [c])) (enumerate 0 s)"
| "own_props v = []"

text \<open>
  \<open>{...a, ...b}\<close>: the entries of \<open>b\<close> override those of \<open>a\<close>. Objects are read through
  \<open>map_of\<close>; the order of their keys is not modelled.
\<close>

definition spread :: "(string \<times> json) list \<Rightarrow> (string \<times> json) list \<Rightarrow> (string \<times> json) list" where
  "spread a b = AList.merge a b"

section \<open>The server state\<close>

text \<open>
  \<open>uploads\<close> is the \<open>Map\<close> of records in insertion order. \<open>intervals\<close> holds the live
  timers that \<open>setInterval\<close> created: the handle, the upload id and the \<open>totalTime\<close>
  captured by the callback's closure.
\<close>

record state =
  uploads :: "(string \<times> upload) list"
  intervals :: "(nat \<times> string \<times> rat) list"
  next_timer :: nat

definition init_state :: state where
  "init_state = \<lparr> uploads = [], intervals = [], next_timer = 0 \<rparr>"

definition simulateProcessing :: "string \<Rightarrow> state \<Rightarrow> state" where
  "simulateProcessing uploadId s =
     (case map_of (uploads s) uploadId of
        None \<Rightarrow> s
      | Some u \<Rightarrow>
          s\<lparr> intervals := AList.update (next_timer s)
                            (uploadId, completesAt u - of_int (createdAt u)) (intervals s),
             next_timer := Suc (next_timer s) \<rparr>)"

text \<open>The callback of timer \<open>h\<close>; a timer that was cleared never fires.\<close>

definition interval_callback :: "nat \<Rightarrow> int \<Rightarrow> int \<Rightarrow> rat \<Rightarrow> state \<Rightarrow> state" where
  "interval_callback h now now2 r s =
     (case map_of (intervals s) h of
        None \<Rightarrow> s
      | Some (uploadId, totalTime) \<Rightarrow>
          (case map_of (uploads s) uploadId of
             None \<Rightarrow> s\<lparr> intervals := AList.delete h (intervals s) \<rparr>
           | Some record \<Rightarrow>
               (let (record', cleared) = tick_record totalTime now now2 r record
                in s\<lparr> uploads := AList.update uploadId record' (uploads s),
                      intervals := (if cleared then AList.delete h (intervals s)
                                    else intervals s) \<rparr>)))"

section \<open>POST /uploads\<close>

text \<open>The values of the successive \<open>Math.random()\<close> calls of the handler.\<close>

record post_draws =
  r_timeout :: rat
  r_fail :: rat
  r_pick :: rat
  r_slow :: rat
  r_delay :: rat
  r_time :: rat
  r_willFail :: rat

definition error_body :: "string \<Rightarrow> json" where
  "error_body msg = JObj [(''error'', JStr msg)]"

definition upload_errors :: "(nat \<times> string) list" where
  "upload_errors = [(500, ''Internal server error''), (503, ''Service temporarily unavailable'')]"

text \<open>\<open>errors[i]\<close>; reading \<open>.status\<close> of an absent element raises a TypeError.\<close>

definition pick_error :: "int \<Rightarrow> exn + (nat \<times> string)" where
  "pick_error i =
     (if 0 \<le> i \<and> nat i < length upload_errors then Inr (upload_errors ! nat i)
      else Inl TypeError)"

definition build_metadata :: "(string \<Rightarrow> json option) \<Rightarrow> request \<Rightarrow> (string \<times> json) list" where
  "build_metadata parse req =
     (let metadata =
            spread [(''language'', or_default (map_of (body req) ''language'') (JStr ''en'')),
                    (''speakerCount'',
                       or_default (map_of (body req) ''speakerCount'') (JNum (Fin 1)))]
                   (body req)
      in case first_config (files req) of
           None \<Rightarrow> metadata
         | Some configFile \<Rightarrow>
             (case parse (buffer configFile) of
                None \<Rightarrow> metadata
              | Some cfg \<Rightarrow> spread metadata (own_props cfg)))"

definition new_upload ::
  "settings \<Rightarrow> post_draws \<Rightarrow> string \<Rightarrow> int \<Rightarrow> multer_file \<Rightarrow> (string \<times> json) list \<Rightarrow> upload" where
  "new_upload cfg d uploadId now audioFile md =
     (let processingTime =
            minProcessingTime cfg + r_time d * (maxProcessingTime cfg - minProcessingTime cfg)
      in \<lparr> id_u = uploadId, filename = originalname audioFile,
           mimeType = mimetype audioFile, size_u = size_f audioFile, metadata = md,
           status = Queued, progress = Fin 0, createdAt = now,
           completesAt = of_int now + processingTime,
           willFail = (r_willFail d < processingFailureRate cfg),
           transcript = None, error = None, completedAt = None \<rparr>)"

text \<open>
  The handler. \<open>parse\<close> is \<open>JSON.parse\<close> on the text of the configuration file
  (\<open>None\<close> when it throws), \<open>uploadId\<close> the value of \<open>randomUUID()\<close>, \<open>now\<close> the value
  of \<open>Date.now()\<close>. Before its delays the handler has not touched the store, so the
  handler is one atomic step taken when the delay is over.
\<close>

definition post_uploads ::
  "settings \<Rightarrow> (string \<Rightarrow> json option) \<Rightarrow> post_draws \<Rightarrow> string \<Rightarrow> int \<Rightarrow> request \<Rightarrow> state
     \<Rightarrow> (exn + response) \<times> state" where
  "post_uploads cfg parse d uploadId now req s =
     (if r_timeout d < timeoutRate cfg then
        (Inr \<lparr> code = 504, rbody = error_body ''Gateway timeout'', waited = 35000 \<rparr>, s)
      else if r_fail d < uploadFailureRate cfg then
        (case pick_error \<lfloor>r_pick d * 2\<rfloor> of
           Inl e \<Rightarrow> (Inl e, s)
         | Inr (st, msg) \<Rightarrow> (Inr \<lparr> code = st, rbody = error_body msg, waited = 0 \<rparr>, s))
      else
        (let w = (if r_slow d < 2 / 10 then 1000 + r_delay d * 2000 else 0)
         in case first_audio (files req) of
              None \<Rightarrow>
                (Inr \<lparr> code = 400, rbody = error_body ''No audio file uploaded'',
                       waited = w \<rparr>, s)
            | Some audioFile \<Rightarrow>
                if mimetype audioFile \<notin> set SUPPORTED_AUDIO_TYPES then
                  (Inr \<lparr> code = 400,
                         rbody = error_body (''Unsupported audio format: '' @ mimetype audioFile
                                   @ ''. Supported formats: M4A, WAV''),
                         waited = w \<rparr>, s)
                else
                  (let uploadRecord =
                         new_upload cfg d uploadId now audioFile (build_metadata parse req);
                       s1 = s\<lparr> uploads := AList.update uploadId uploadRecord (uploads s) \<rparr>;
                       s2 = simulateProcessing uploadId s1
                   in (Inr \<lparr> code = 202,
                             rbody = JObj [(''uploadId'', JStr uploadId),
                                           (''status'', JStr ''queued''),
                                           (''message'',
                                            JStr ''Upload accepted and queued for transcription'')],
                             waited = w \<rparr>, s2))))"

section \<open>GET /uploads/:uploadId/status and GET /uploads\<close>

text \<open>
  \<open>new Date(t).toISOString()\<close>: a RangeError for an invalid date, which is what
  \<open>undefined\<close> and a time value beyond 8.64e15 milliseconds give.
\<close>

definition valid_time :: "int \<Rightarrow> bool" where
  "valid_time t = (\<bar>t\<bar> \<le> 8640000000000000)"

definition toISOString :: "int option \<Rightarrow> exn + json" where
  "toISOString t =
     (case t of None \<Rightarrow> Inl RangeError
      | Some v \<Rightarrow> if valid_time v then Inr (JIso v) else Inl RangeError)"

definition nullable :: "string option \<Rightarrow> json" where
  "nullable v = (case v of None \<Rightarrow> JNull | Some x \<Rightarrow> JStr x)"

record get_draws =
  g_timeout :: rat
  g_slow :: rat
  g_delay :: rat

definition status_response :: "upload \<Rightarrow> exn + json" where
  "status_response u =
     (case toISOString (Some (createdAt u)) of
        Inl e \<Rightarrow> Inl e
      | Inr created \<Rightarrow>
          (let response = [(''uploadId'', JStr (id_u u)),
                           (''status'', JStr (status_str (status u))),
                           (''progress'', JNum (progress u)),
                           (''filename'', JStr (filename u)),
                           (''metadata'', JObj (metadata u)),
                           (''createdAt'', created)];
               failed = (if status u = Failed then [(''error'', nullable (error u))] else [])
           in if status u = Completed then
                (case toISOString (completedAt u) of
                   Inl e \<Rightarrow> Inl e
                 | Inr completed \<Rightarrow>
                     Inr (JObj (response @ [(''transcript'', nullable (transcript u)),
                                            (''completedAt'', completed)] @ failed)))
              else Inr (JObj (response @ failed))))"

definition get_status ::
  "settings \<Rightarrow> get_draws \<Rightarrow> string \<Rightarrow> state \<Rightarrow> (exn + response) \<times> state" where
  "get_status cfg d uploadId s =
     (if g_timeout d < timeoutRate cfg then
        (Inr \<lparr> code = 504, rbody = error_body ''Gateway timeout'', waited = 35000 \<rparr>, s)
      else
        (let w = (if g_slow d < 2 / 10 then 1000 + g_delay d * 2000 else 0)
         in case map_of (uploads s) uploadId of
              None \<Rightarrow>
                (Inr \<lparr> code = 404, rbody = error_body ''Upload not found'', waited = w \<rparr>, s)
            | Some u \<Rightarrow>
                (case status_response u of
                   Inl e \<Rightarrow> (Inl e, s)
                 | Inr b \<Rightarrow> (Inr \<lparr> code = 200, rbody = b, waited = w \<rparr>, s))))"

definition summary :: "upload \<Rightarrow> exn + json" where
  "summary u =
     (case toISOString (Some (createdAt u)) of
        Inl e \<Rightarrow> Inl e
      | Inr created \<Rightarrow>
          Inr (JObj [(''uploadId'', JStr (id_u u)),
                     (''filename'', JStr (filename u)),
                     (''status'', JStr (status_str (status u))),
                     (''progress'', JNum (progress u)),
                     (''createdAt'', created)]))"

fun summaries :: "upload list \<Rightarrow> exn + json list" where
  "summaries [] = Inr []"
| "summaries (u # us) =
     (case summary u of
        Inl e \<Rightarrow> Inl e
      | Inr j \<Rightarrow> (case summaries us of Inl e \<Rightarrow> Inl e | Inr js \<Rightarrow> Inr (j # js)))"

definition list_uploads :: "state \<Rightarrow> (exn + response) \<times> state" where
  "list_uploads s =
     (case summaries (map snd (uploads s)) of
        Inl e \<Rightarrow> (Inl e, s)
      | Inr js \<Rightarrow> (Inr \<lparr> code = 200, rbody = JArr js, waited = 0 \<rparr>, s))"

section \<open>Runs of the server\<close>

text \<open>
  The event loop runs one callback at a time to completion, so a run of the server is a
  sequence of events: the three request handlers and the firing of a timer.
\<close>

datatype event =
    Post request post_draws string int
  | GetStatus string get_draws
  | ListUploads
  | Tick nat int int rat

fun step :: "settings \<Rightarrow> (string \<Rightarrow> json option) \<Rightarrow> event \<Rightarrow> state \<Rightarrow> state" where
  "step cfg parse (Post req d uploadId now) s = snd (post_uploads cfg parse d uploadId now req s)"
| "step cfg parse (GetStatus uploadId d) s = snd (get_status cfg d uploadId s)"
| "step cfg parse ListUploads s = snd (list_uploads s)"
| "step cfg parse (Tick h now now2 r) s = interval_callback h now now2 r s"

text \<open>
  What the environment guarantees for an event: \<open>randomUUID()\<close> returns an id that is
  not in use, and \<open>Date.now()\<close> returns a valid time value.
\<close>

fun ok_event :: "state \<Rightarrow> event \<Rightarrow> bool" where
  "ok_event s (Post req d uploadId now) = (map_of (uploads s) uploadId = None \<and> valid_time now)"
| "ok_event s (Tick h now now2 r) = (valid_time now \<and> valid_time now2)"
| "ok_event s e = True"

fun run :: "settings \<Rightarrow> (string \<Rightarrow> json option) \<Rightarrow> event list \<Rightarrow> state \<Rightarrow> state" where
  "run cfg parse [] s = s"
| "run cfg parse (e # es) s = run cfg parse es (step cfg parse e s)"

fun ok_run :: "settings \<Rightarrow> (string \<Rightarrow> json option) \<Rightarrow> event list \<Rightarrow> state \<Rightarrow> bool" where
  "ok_run cfg parse [] s = True"
| "ok_run cfg parse (e # es) s = (ok_event s e \<and> ok_run cfg parse es (step cfg parse e s))"

section \<open>Observing one record over the ticks of its timer\<close>

text \<open>
  The states of a record after each firing of its timer. Each firing is given by the two
  clock readings and the random draw of the callback; the timer stops firing once the
  callback has cleared it.
\<close>

fun run_ticks :: "rat \<Rightarrow> (int \<times> int \<times> rat) list \<Rightarrow> upload \<Rightarrow> upload list" where
  "run_ticks totalTime [] u = []"
| "run_ticks totalTime ((now, now2, r) # ts) u =
     (let (u', cleared) = tick_record totalTime now now2 r u
      in u' # (if cleared then [] else run_ticks totalTime ts u'))"

definition terminal :: "status \<Rightarrow> bool" where
  "terminal st = (st = Completed \<or> st = Failed)"

section \<open>Invariants of reachable states\<close>

definition record_ok :: "upload \<Rightarrow> bool" where
  "record_ok u =
     (valid_time (createdAt u) \<and>
      (case status u of
         Completed \<Rightarrow> transcript u \<noteq> None \<and> error u = None \<and>
                      (case completedAt u of None \<Rightarrow> False | Some t \<Rightarrow> valid_time t)
       | Failed \<Rightarrow> error u \<noteq> None \<and> transcript u = None
       | _ \<Rightarrow> transcript u = None \<and> error u = None))"

definition inv :: "state \<Rightarrow> bool" where
  "inv s =
     ((\<forall>k u. map_of (uploads s) k = Some u \<longrightarrow> record_ok u) \<and>
      (\<forall>h k t. map_of (intervals s) h = Some (k, t) \<longrightarrow>
         h < next_timer s \<and> (\<exists>u. map_of (uploads s) k = Some u \<and> \<not> terminal (status u))) \<and>
      (\<forall>h h' k t t'. map_of (intervals s) h = Some (k, t) \<and>
         map_of (intervals s) h' = Some (k, t') \<longrightarrow> h = h'))"

section \<open>Example inputs\<close>

definition example_audio :: multer_file where
  "example_audio =
     \<lparr> originalname = ''a.wav'', mimetype = ''audio/wav'', size_f = 10, buffer = ''RIFF'' \<rparr>"

definition example_request :: request where
  "example_request =
     \<lparr> files = Some \<lparr> audio = Some [example_audio], config = None \<rparr>,
       body = [(''language'', JStr ''de'')] \<rparr>"

text \<open>Draws that take none of the random branches and give the shortest duration.\<close>

definition example_draws :: post_draws where
  "example_draws =
     \<lparr> r_timeout = 1 / 2, r_fail = 1 / 2, r_pick = 0, r_slow = 1 / 2, r_delay = 0,
       r_time = 0, r_willFail = 1 / 2 \<rparr>"

definition no_parse :: "string \<Rightarrow> json option" where
  "no_parse b = None"

definition example_upload :: upload where
  "example_upload =
     new_upload CONFIG example_draws ''u1'' 1000 example_audio
       (build_metadata no_parse example_request)"

definition example_state :: state where
  "example_state =
     \<lparr> uploads = [(''u1'', example_upload)], intervals = [(0, ''u1'', 5000)], next_timer = 1 \<rparr>"

section \<open>Auxiliary notions and further examples\<close>

text \<open>The handler answered 202.\<close>

definition accepted :: "exn + response \<Rightarrow> bool" where
  "accepted res = (case res of Inl e \<Rightarrow> False | Inr resp \<Rightarrow> code resp = 202)"

text \<open>A request that the two validation steps of POST /uploads reject.\<close>

definition invalid_request :: "request \<Rightarrow> bool" where
  "invalid_request req =
     (case first_audio (files req) of
        None \<Rightarrow> True
      | Some audioFile \<Rightarrow> mimetype audioFile \<notin> set SUPPORTED_AUDIO_TYPES)"

text \<open>The request with its configuration file taken away.\<close>

definition without_config :: "request \<Rightarrow> request" where
  "without_config req = req\<lparr> files := map_option (\<lambda>f. f\<lparr> config := None \<rparr>) (files req) \<rparr>"

definition zero_config :: settings where
  "zero_config = CONFIG\<lparr> minProcessingTime := 0, maxProcessingTime := 0 \<rparr>"

definition empty_request :: request where
  "empty_request = \<lparr> files = None, body = [] \<rparr>"

text \<open>Draws that take the slow-down branch only.\<close>

definition slow_draws :: post_draws where
  "slow_draws = example_draws\<lparr> r_slow := 1 / 10, r_delay := 1 / 2 \<rparr>"

definition timeout_draws :: post_draws where
  "timeout_draws = example_draws\<lparr> r_timeout := 1 / 20 \<rparr>"

definition failure_draws :: post_draws where
  "failure_draws = example_draws\<lparr> r_fail := 1 / 10, r_pick := 3 / 4 \<rparr>"

definition example_get_draws :: get_draws where
  "example_get_draws = \<lparr> g_timeout = 1 / 2, g_slow = 1 / 2, g_delay = 0 \<rparr>"

text \<open>The text \<open>{"speakerCount":2,"model":"large"}\<close> of a JSON object.\<close>

definition quoted :: "string \<Rightarrow> string" where
  "quoted t = CHR 0x22 # t @ [CHR 0x22]"

definition object_text :: string where
  "object_text =
     ''{'' @ quoted ''speakerCount'' @ '':2,'' @ quoted ''model'' @ '':'' @ quoted ''large'' @ ''}''"

text \<open>A stand-in for \<open>JSON.parse\<close> that knows two valid texts, an array and an object.\<close>

definition example_parse :: "string \<Rightarrow> json option" where
  "example_parse b =
     (if b = ''[true]'' then Some (JArr [JBool True])
      else if b = object_text
        then Some (JObj [(''speakerCount'', JNum (Fin 2)), (''model'', JStr ''large'')])
      else None)"

definition config_request :: "string \<Rightarrow> request" where
  "config_request b =
     \<lparr> files = Some \<lparr> audio = Some [example_audio],
                       config = Some [\<lparr> originalname = ''c.json'', mimetype = ''application/json'',
                                        size_f = length b, buffer = b \<rparr>] \<rparr>,
       body = [(''language'', JStr ''de'')] \<rparr>"

text \<open>
  The state in which every record carries another failure flag and another completion
  time, given per upload id.
\<close>

definition reflag :: "(string \<Rightarrow> bool) \<Rightarrow> (string \<Rightarrow> rat) \<Rightarrow> state \<Rightarrow> state" where
  "reflag w c s =
     s\<lparr> uploads := map (\<lambda>(k, u). (k, u\<lparr> willFail := w k, completesAt := c k \<rparr>)) (uploads s) \<rparr>"

text \<open>A run that accepts one upload and completes it, and what it leads to.\<close>

definition example_events :: "event list" where
  "example_events = [Post example_request example_draws ''u1'' 1000, Tick 0 6000 6001 0]"

definition done_upload :: upload where
  "done_upload =
     example_upload\<lparr> status := Completed, progress := Fin 100, completedAt := Some 6001,
                     transcript := Some (generateMockTranscript 0) \<rparr>"

definition done_state :: state where
  "done_state = \<lparr> uploads = [(''u1'', done_upload)], intervals = [], next_timer = 1 \<rparr>"

section \<open>Properties\<close>

subsection \<open>Evaluation of the examples\<close>

lemma floor_rat_numeral [simp]: "\<lfloor>(numeral a :: rat) / numeral b\<rfloor> = numeral a div numeral b"
  using floor_divide_of_int_eq [of "numeral a" "numeral b", where ?'a = rat] by simp

lemma example_upload_simps:
  "createdAt example_upload = 1000" "willFail example_upload = False"
  "status example_upload = Queued" "transcript example_upload = None"
  "error example_upload = None" "progress example_upload = Fin 0"
  "completesAt example_upload = 6000"
  by (simp_all add: example_upload_def new_upload_def example_draws_def CONFIG_def)

lemma example_post:
  "snd (post_uploads CONFIG no_parse example_draws ''u1'' 1000 example_request init_state) = example_state"
  by (simp add: post_uploads_def example_draws_def CONFIG_def example_request_def first_audio_def
      example_audio_def SUPPORTED_AUDIO_TYPES_def init_state_def simulateProcessing_def
      example_state_def example_upload_def new_upload_def Let_def)

lemma example_progress_done: "compute_progress 5000 1000 6000 = Fin 100"
  by (simp add: compute_progress_def js_div_def)

lemma example_progress_early: "compute_progress 5000 1000 2000 = Fin 20"
  by (simp add: compute_progress_def js_div_def)

subsection \<open>The progress formula\<close>

lemma js_ge_100_compute_progress:
  "js_ge (compute_progress totalTime created now) 100 \<Longrightarrow>
   compute_progress totalTime created now = Fin 100"
  unfolding compute_progress_def
  by (cases "Math_round (js_times (js_div (of_int (now - created)) totalTime) 100)") auto

text \<open>The percentage as an integer, for a non-negative duration and a later clock reading.\<close>

lemma compute_progress_zero:
  "created < now \<Longrightarrow> compute_progress 0 created now = Fin 100"
  by (simp add: compute_progress_def js_div_def)

text \<open>
  With a zero duration and a clock reading equal to the creation time the quotient is
  \<open>0 / 0\<close> and the progress is \<open>NaN\<close>; the statements about ticks therefore take the
  clock reading of a tick to be later than the creation.
\<close>

lemma compute_progress_zero_at_creation:
  "compute_progress 0 created created = NaN"
  by (simp add: compute_progress_def js_div_def)

lemma compute_progress_pos:
  "0 < totalTime \<Longrightarrow>
   compute_progress totalTime created now =
     Fin (of_int (min 100 \<lfloor>of_int (now - created) / totalTime * 100 + 1 / 2\<rfloor>))"
  by (simp add: compute_progress_def js_div_def min_def)

lemma compute_progress_range:
  assumes "0 \<le> totalTime" and "created < now"
  shows "\<exists>n. compute_progress totalTime created now = Fin (of_int n) \<and> 0 \<le> n \<and> n \<le> 100"
proof (cases "totalTime = 0")
  case True
  then show ?thesis
    using assms(2) compute_progress_zero [of created now] by (intro exI [of _ 100]) simp
next
  case False
  with assms(1) have pos: "0 < totalTime" by simp
  define q where "q = of_int (now - created) / totalTime"
  define x where "x = q * 100 + 1 / 2"
  have "0 \<le> q"
    unfolding q_def using pos assms(2) by simp
  then have "0 \<le> x"
    unfolding x_def by linarith
  then have "0 \<le> \<lfloor>x\<rfloor>"
    by simp
  then have "0 \<le> min 100 \<lfloor>x\<rfloor> \<and> min 100 \<lfloor>x\<rfloor> \<le> 100"
    by simp
  then show ?thesis
    unfolding compute_progress_pos [OF pos] x_def q_def by blast
qed

lemma compute_progress_mono:
  assumes "0 \<le> totalTime" and "created < now" and "now \<le> now'"
    and "compute_progress totalTime created now = Fin (of_int m)"
    and "compute_progress totalTime created now' = Fin (of_int n)"
  shows "m \<le> n"
proof (cases "totalTime = 0")
  case True
  then show ?thesis
    using assms by (simp add: compute_progress_zero)
next
  case False
  with assms(1) have pos: "0 < totalTime" by simp
  define p where "p = of_int (now - created) / totalTime"
  define q where "q = of_int (now' - created) / totalTime"
  define x where "x = p * 100 + 1 / 2"
  define y where "y = q * 100 + 1 / 2"
  have "(of_int (now - created) :: rat) \<le> of_int (now' - created)"
    using assms(3) by simp
  then have "p \<le> q"
    unfolding p_def q_def using pos by (rule_tac divide_right_mono) simp_all
  then have "x \<le> y"
    unfolding x_def y_def by linarith
  then have "min 100 \<lfloor>x\<rfloor> \<le> min 100 \<lfloor>y\<rfloor>"
    using floor_mono [of x y] by simp
  moreover have "m = min 100 \<lfloor>x\<rfloor>" "n = min 100 \<lfloor>y\<rfloor>"
    using assms(4,5) unfolding compute_progress_pos [OF pos] x_def y_def p_def q_def by simp_all
  ultimately show ?thesis by simp
qed

subsection \<open>One tick\<close>

lemma tick_record_createdAt [simp]:
  "createdAt (fst (tick_record totalTime now now2 r u)) = createdAt u"
  by (simp add: tick_record_def Let_def)

lemma tick_record_cleared:
  "snd (tick_record totalTime now now2 r u) = js_ge (compute_progress totalTime (createdAt u) now) 100"
  by (simp add: tick_record_def Let_def)

lemma tick_record_terminal:
  assumes "js_ge (compute_progress totalTime (createdAt u) now) 100"
  shows "tick_record totalTime now now2 r u =
     (if willFail u
      then u\<lparr>status := Failed, progress := Fin 100, error := Some failure_message\<rparr>
      else u\<lparr>status := Completed, progress := Fin 100, completedAt := Some now2,
              transcript := Some (generateMockTranscript r)\<rparr>, True)"
  using assms js_ge_100_compute_progress [OF assms]
  by (simp add: tick_record_def Let_def)

lemma tick_record_running:
  assumes "\<not> js_ge (compute_progress totalTime (createdAt u) now) 100"
  shows "tick_record totalTime now now2 r u =
     (u\<lparr>status := (if status u = Queued \<and> js_gt (compute_progress totalTime (createdAt u) now) 5
                     then Processing else status u),
        progress := compute_progress totalTime (createdAt u) now\<rparr>, False)"
  using assms by (simp add: tick_record_def Let_def)


lemma tick_record_progress:
  "progress (fst (tick_record totalTime now now2 r u)) = compute_progress totalTime (createdAt u) now"
proof (cases "js_ge (compute_progress totalTime (createdAt u) now) 100")
  case True
  then show ?thesis
    by (simp add: tick_record_terminal js_ge_100_compute_progress)
next
  case False
  then show ?thesis
    by (simp add: tick_record_running)
qed

lemma tick_record_status_terminal:
  "terminal (status (fst (tick_record totalTime now now2 r u))) \<longleftrightarrow>
     js_ge (compute_progress totalTime (createdAt u) now) 100 \<or> terminal (status u)"
  by (cases "js_ge (compute_progress totalTime (createdAt u) now) 100")
     (auto simp: tick_record_terminal tick_record_running terminal_def)

subsection \<open>The accepted upload\<close>

lemma pick_error_code:
  "pick_error i = Inr (st, msg) \<Longrightarrow> st = 500 \<or> st = 503"
  by (auto simp: pick_error_def upload_errors_def nth_Cons' split: if_splits)

lemma post_uploads_accepted:
  assumes "post_uploads cfg parse d uploadId now req s = (Inr resp, s1)" and "code resp = 202"
  shows "\<exists>audioFile. first_audio (files req) = Some audioFile \<and>
           mimetype audioFile \<in> set SUPPORTED_AUDIO_TYPES \<and>
           \<not> r_timeout d < timeoutRate cfg \<and> \<not> r_fail d < uploadFailureRate cfg \<and>
           s1 = simulateProcessing uploadId
                  (s\<lparr> uploads := AList.update uploadId
                        (new_upload cfg d uploadId now audioFile (build_metadata parse req))
                        (uploads s) \<rparr>)"
  using assms
  by (auto simp: post_uploads_def Let_def split: if_splits sum.splits option.splits
           dest: pick_error_code)

lemma simulateProcessing_stored:
  "simulateProcessing uploadId (s\<lparr> uploads := AList.update uploadId u (uploads s) \<rparr>) =
     s\<lparr> uploads := AList.update uploadId u (uploads s),
        intervals := AList.update (next_timer s)
                       (uploadId, completesAt u - of_int (createdAt u)) (intervals s),
        next_timer := Suc (next_timer s) \<rparr>"
  by (simp add: simulateProcessing_def update_conv')

lemma interval_callback_found:
  assumes "map_of (intervals s) h = Some (uploadId, totalTime)"
    and "map_of (uploads s) uploadId = Some u"
  shows "interval_callback h now now2 r s =
     s\<lparr> uploads := AList.update uploadId (fst (tick_record totalTime now now2 r u)) (uploads s),
        intervals := (if snd (tick_record totalTime now now2 r u)
                      then AList.delete h (intervals s) else intervals s) \<rparr>"
  using assms by (simp add: interval_callback_def split_beta Let_def)

text \<open>
  C1. When the progress computed by a tick reaches 100, the callback clears its timer and
  applies the outcome fixed at creation: with \<open>willFail\<close> the record becomes failed, its
  error is exactly the fixed message and its transcript is left as it was (\<open>null\<close> for
  every record the server creates); otherwise the record becomes completed with
  progress 100, \<open>completedAt\<close> the current clock reading and a transcript.
\<close>

theorem C1_terminal_tick:
  assumes "map_of (intervals s) h = Some (uploadId, totalTime)"
    and "map_of (uploads s) uploadId = Some u"
    and "js_ge (compute_progress totalTime (createdAt u) now) 100"
  shows "map_of (intervals (interval_callback h now now2 r s)) h = None \<and>
         (\<exists>u'. map_of (uploads (interval_callback h now now2 r s)) uploadId = Some u' \<and>
            (willFail u \<longrightarrow> status u' = Failed \<and>
               error u' = Some ''Transcription failed: Unable to process audio'' \<and>
               transcript u' = transcript u) \<and>
            (\<not> willFail u \<longrightarrow> status u' = Completed \<and> progress u' = Fin 100 \<and>
               completedAt u' = Some now2 \<and>
               transcript u' = Some (generateMockTranscript r)))"
  unfolding interval_callback_found [OF assms(1,2)] tick_record_terminal [OF assms(3)]
  by (simp add: update_conv' delete_conv' failure_message_def)

theorem C1_terminal_tick_witness:
  "map_of (intervals example_state) 0 = Some (''u1'', 5000) \<and>
   map_of (uploads example_state) ''u1'' = Some example_upload \<and>
   js_ge (compute_progress 5000 (createdAt example_upload) 6000) 100 \<and>
   map_of (intervals (interval_callback 0 6000 6001 0 example_state)) 0 = None \<and>
   (\<exists>u'. map_of (uploads (interval_callback 0 6000 6001 0 example_state)) ''u1'' = Some u' \<and>
      status u' = Completed \<and> progress u' = Fin 100 \<and> completedAt u' = Some 6001 \<and>
      transcript u' = Some (generateMockTranscript 0))"
proof -
  have a: "map_of (intervals example_state) 0 = Some (''u1'', 5000)"
    by (simp add: example_state_def)
  have b: "map_of (uploads example_state) ''u1'' = Some example_upload"
    by (simp add: example_state_def)
  have c: "js_ge (compute_progress 5000 (createdAt example_upload) 6000) 100"
    by (simp add: example_upload_simps example_progress_done)
  show ?thesis
    using a b c C1_terminal_tick [OF a b c, of 6001 0]
    by (auto simp: example_upload_simps)
qed

text \<open>
  C3. A tick takes a record from queued to processing exactly when the record is queued
  and the computed progress is above 5 and below 100 (the assignment made at progress
  100 is overwritten before the callback returns). A record whose first tick computes
  progress of at least 100 is terminal after that tick, which is the last one, so it is
  never observed in the processing state.
\<close>

theorem C3_processing_transition:
  "((status u = Queued \<and> status (fst (tick_record totalTime now now2 r u)) = Processing) =
    (status u = Queued \<and> js_gt (compute_progress totalTime (createdAt u) now) 5 \<and>
     \<not> js_ge (compute_progress totalTime (createdAt u) now) 100)) \<and>
   (js_ge (compute_progress totalTime (createdAt u) now) 100 \<longrightarrow>
      list_all (\<lambda>v. status v \<noteq> Processing \<and> terminal (status v))
        (run_ticks totalTime ((now, now2, r) # ts) u))"
proof (cases "js_ge (compute_progress totalTime (createdAt u) now) 100")
  case True
  then show ?thesis
    by (simp add: tick_record_terminal terminal_def)
next
  case False
  then show ?thesis
    by (auto simp: tick_record_running)
qed

theorem C3_processing_transition_witness:
  "status example_upload = Queued \<and>
   status (fst (tick_record 5000 2000 2000 0 example_upload)) = Processing \<and>
   js_gt (compute_progress 5000 (createdAt example_upload) 2000) 5 \<and>
   \<not> js_ge (compute_progress 5000 (createdAt example_upload) 2000) 100 \<and>
   js_ge (compute_progress 5000 (createdAt example_upload) 6000) 100 \<and>
   list_all (\<lambda>v. status v \<noteq> Processing \<and> terminal (status v))
     (run_ticks 5000 [(6000, 6001, 0), (7000, 7001, 0)] example_upload)"
  using C3_processing_transition [of example_upload 5000 2000 2000 0 "[]"]
    C3_processing_transition [of example_upload 5000 6000 6001 0 "[(7000, 7001, 0)]"]
  by (simp add: example_upload_simps example_progress_done example_progress_early)

subsection \<open>Progress over the ticks of one record\<close>

lemma run_ticks_progress:
  assumes "0 \<le> totalTime"
    and "list_all (\<lambda>t. createdAt u < fst t) ts"
    and "sorted (map fst ts)"
    and "\<forall>t \<in> set ts. \<forall>n. compute_progress totalTime (createdAt u) (fst t) = Fin (of_int n)
           \<longrightarrow> m \<le> n"
  shows "\<exists>ns. map progress (run_ticks totalTime ts u) = map (\<lambda>n. Fin (of_int n)) ns \<and>
              list_all (\<lambda>n. 0 \<le> n \<and> n \<le> 100) ns \<and> sorted (m # ns)"
  using assms
proof (induction ts arbitrary: u m)
  case Nil
  show ?case by (intro exI [of _ "[]"]) simp
next
  case (Cons t ts)
  obtain now now2 r where t: "t = (now, now2, r)"
    by (cases t) auto
  let ?u' = "fst (tick_record totalTime now now2 r u)"
  have later: "createdAt u < now"
    using Cons.prems(2) t by simp
  obtain n where n: "compute_progress totalTime (createdAt u) now = Fin (of_int n)"
      "0 \<le> n" "n \<le> 100"
    using compute_progress_range [OF Cons.prems(1) later] by blast
  have mn: "m \<le> n"
    using Cons.prems(4) n(1) t by simp
  have p': "progress ?u' = Fin (of_int n)"
    by (simp add: tick_record_progress n(1))
  show ?case
  proof (cases "snd (tick_record totalTime now now2 r u)")
    case True
    then have "run_ticks totalTime (t # ts) u = [?u']"
      by (simp add: t split_beta)
    then show ?thesis
      using p' n mn by (intro exI [of _ "[n]"]) simp
  next
    case False
    then have run: "run_ticks totalTime (t # ts) u = ?u' # run_ticks totalTime ts ?u'"
      by (simp add: t split_beta)
    have a: "list_all (\<lambda>t. createdAt ?u' < fst t) ts"
      using Cons.prems(2) by simp
    have b: "sorted (map fst ts)"
      using Cons.prems(3) by simp
    have c: "\<forall>t' \<in> set ts. \<forall>k. compute_progress totalTime (createdAt ?u') (fst t') = Fin (of_int k)
               \<longrightarrow> n \<le> k"
    proof (intro ballI allI impI)
      fix t' k
      assume t': "t' \<in> set ts"
        and k: "compute_progress totalTime (createdAt ?u') (fst t') = Fin (of_int k)"
      have "now \<le> fst t'"
        using Cons.prems(3) t' t by simp
      then show "n \<le> k"
        using compute_progress_mono [OF Cons.prems(1) later _ n(1)] k by simp
    qed
    obtain ns where ns: "map progress (run_ticks totalTime ts ?u') = map (\<lambda>n. Fin (of_int n)) ns"
        "list_all (\<lambda>n. 0 \<le> n \<and> n \<le> 100) ns" "sorted (n # ns)"
      using Cons.IH [OF Cons.prems(1) a b c] by blast
    show ?thesis
      unfolding run using ns p' n mn by (intro exI [of _ "n # ns"]) auto
  qed
qed

lemma new_upload_simps [simp]:
  "status (new_upload cfg d uploadId now audioFile md) = Queued"
  "progress (new_upload cfg d uploadId now audioFile md) = Fin 0"
  "createdAt (new_upload cfg d uploadId now audioFile md) = now"
  "transcript (new_upload cfg d uploadId now audioFile md) = None"
  "error (new_upload cfg d uploadId now audioFile md) = None"
  "completedAt (new_upload cfg d uploadId now audioFile md) = None"
  "willFail (new_upload cfg d uploadId now audioFile md) = (r_willFail d < processingFailureRate cfg)"
  "metadata (new_upload cfg d uploadId now audioFile md) = md"
  "completesAt (new_upload cfg d uploadId now audioFile md) - of_int now =
     minProcessingTime cfg + r_time d * (maxProcessingTime cfg - minProcessingTime cfg)"
  by (simp_all add: new_upload_def Let_def)

text \<open>
  C2. For a record created under a configuration with \<open>0 \<le> minProcessingTime \<le>
  maxProcessingTime\<close>, and for ticks whose clock readings are later than the creation
  and do not decrease, the stored progress is an integer between 0 and 100 at creation
  and after every tick, and the sequence of stored values never decreases.
\<close>

theorem C2_progress_range_monotone:
  assumes "0 \<le> minProcessingTime cfg" and "minProcessingTime cfg \<le> maxProcessingTime cfg"
    and "0 \<le> r_time d"
    and "list_all (\<lambda>t. now0 < fst t) ts" and "sorted (map fst ts)"
  shows "let u0 = new_upload cfg d uploadId now0 audioFile md;
             totalTime = completesAt u0 - of_int (createdAt u0)
         in \<exists>ns. map progress (u0 # run_ticks totalTime ts u0) = map (\<lambda>n. Fin (of_int n)) ns \<and>
                 list_all (\<lambda>n. 0 \<le> n \<and> n \<le> 100) ns \<and> sorted ns"
proof -
  let ?u0 = "new_upload cfg d uploadId now0 audioFile md"
  let ?T = "completesAt ?u0 - of_int (createdAt ?u0)"
  have "0 \<le> r_time d * (maxProcessingTime cfg - minProcessingTime cfg)"
    using assms(2,3) by simp
  then have T: "0 \<le> ?T"
    using assms(1) by simp
  have later: "list_all (\<lambda>t. createdAt ?u0 < fst t) ts"
    using assms(4) by simp
  have first: "\<forall>t \<in> set ts. \<forall>n. compute_progress ?T (createdAt ?u0) (fst t) = Fin (of_int n)
                 \<longrightarrow> 0 \<le> n"
  proof (intro ballI allI impI)
    fix t n
    assume "t \<in> set ts" and n: "compute_progress ?T (createdAt ?u0) (fst t) = Fin (of_int n)"
    then have "createdAt ?u0 < fst t"
      using later by (simp add: list_all_iff)
    from compute_progress_range [OF T this] n show "0 \<le> n"
      by auto
  qed
  obtain ns where ns: "map progress (run_ticks ?T ts ?u0) = map (\<lambda>n. Fin (of_int n)) ns"
      "list_all (\<lambda>n. 0 \<le> n \<and> n \<le> 100) ns" "sorted (0 # ns)"
    using run_ticks_progress [OF T later assms(5) first] by blast
  have "map progress (?u0 # run_ticks ?T ts ?u0) = map (\<lambda>n. Fin (of_int n)) (0 # ns) \<and>
        list_all (\<lambda>n. 0 \<le> n \<and> n \<le> 100) (0 # ns) \<and> sorted (0 # ns)"
    using ns by simp
  then show ?thesis
    unfolding Let_def by blast
qed

theorem C2_progress_range_monotone_witness:
  "0 \<le> minProcessingTime CONFIG \<and> minProcessingTime CONFIG \<le> maxProcessingTime CONFIG \<and>
   0 \<le> r_time example_draws \<and>
   list_all (\<lambda>t. 1000 < fst t) [(2000 :: int, 2000 :: int, 0 :: rat), (4013, 4013, 0), (6000, 6001, 0)] \<and>
   sorted (map fst [(2000 :: int, 2000 :: int, 0 :: rat), (4013, 4013, 0), (6000, 6001, 0)]) \<and>
   map progress (example_upload # run_ticks 5000 [(2000, 2000, 0), (4013, 4013, 0), (6000, 6001, 0)]
     example_upload) = [Fin 0, Fin 20, Fin 60, Fin 100] \<and>
   (\<exists>ns. map progress (example_upload #
            run_ticks (completesAt example_upload - of_int (createdAt example_upload))
              [(2000, 2000, 0), (4013, 4013, 0), (6000, 6001, 0)] example_upload)
          = map (\<lambda>n. Fin (of_int n)) ns \<and>
          list_all (\<lambda>n. 0 \<le> n \<and> n \<le> 100) ns \<and> sorted ns)"
proof -
  have a: "0 \<le> minProcessingTime CONFIG" "minProcessingTime CONFIG \<le> maxProcessingTime CONFIG"
    by (simp_all add: CONFIG_def)
  have b: "0 \<le> r_time example_draws"
    by (simp add: example_draws_def)
  have c: "list_all (\<lambda>t. 1000 < fst t)
             [(2000 :: int, 2000 :: int, 0 :: rat), (4013, 4013, 0), (6000, 6001, 0)]"
    by simp
  have d: "sorted (map fst [(2000 :: int, 2000 :: int, 0 :: rat), (4013, 4013, 0), (6000, 6001, 0)])"
    by simp
  have e: "map progress (example_upload #
             run_ticks 5000 [(2000, 2000, 0), (4013, 4013, 0), (6000, 6001, 0)] example_upload)
           = [Fin 0, Fin 20, Fin 60, Fin 100]"
    by (simp add: tick_record_def Let_def example_upload_simps compute_progress_def js_div_def)
  show ?thesis
    using a b c d e
      C2_progress_range_monotone [OF a b c d, of "''u1''" example_audio
        "build_metadata no_parse example_request"]
    unfolding example_upload_def [symmetric] Let_def
    by simp
qed

subsection \<open>The branches of POST /uploads\<close>

lemma post_uploads_timeout:
  "r_timeout d < timeoutRate cfg \<Longrightarrow>
   post_uploads cfg parse d uploadId now req s =
     (Inr \<lparr> code = 504, rbody = error_body ''Gateway timeout'', waited = 35000 \<rparr>, s)"
  by (simp add: post_uploads_def)

lemma pick_error_draw:
  assumes "0 \<le> r" and "r < 1"
  shows "pick_error \<lfloor>r * 2\<rfloor> =
     Inr (if r < 1 / 2 then (500, ''Internal server error'')
          else (503, ''Service temporarily unavailable''))"
proof (cases "r < 1 / 2")
  case True
  then have "\<lfloor>r * 2\<rfloor> = 0"
    using assms(1) by (intro floor_unique) simp_all
  then show ?thesis
    using True by (simp add: pick_error_def upload_errors_def)
next
  case False
  then have "\<lfloor>r * 2\<rfloor> = 1"
    using assms(2) by (intro floor_unique) simp_all
  then show ?thesis
    using False by (simp add: pick_error_def upload_errors_def)
qed

lemma post_uploads_failure:
  assumes "\<not> r_timeout d < timeoutRate cfg" and "r_fail d < uploadFailureRate cfg"
  shows "post_uploads cfg parse d uploadId now req s =
     (case pick_error \<lfloor>r_pick d * 2\<rfloor> of
        Inl e \<Rightarrow> Inl e
      | Inr (st, msg) \<Rightarrow> Inr \<lparr> code = st, rbody = error_body msg, waited = 0 \<rparr>, s)"
  using assms by (simp add: post_uploads_def split: sum.splits)

lemma post_uploads_failure_code:
  assumes "\<not> r_timeout d < timeoutRate cfg" and "r_fail d < uploadFailureRate cfg"
    and "fst (post_uploads cfg parse d uploadId now req s) = Inr resp"
  shows "code resp = 500 \<or> code resp = 503"
  using assms(3) unfolding post_uploads_failure [OF assms(1,2)]
  by (auto split: sum.splits dest: pick_error_code)

lemma post_uploads_invalid:
  assumes "\<not> r_timeout d < timeoutRate cfg" and "\<not> r_fail d < uploadFailureRate cfg"
    and "invalid_request req"
  shows "\<exists>msg. post_uploads cfg parse d uploadId now req s =
     (Inr \<lparr> code = 400, rbody = error_body msg,
            waited = (if r_slow d < 2 / 10 then 1000 + r_delay d * 2000 else 0) \<rparr>, s)"
  using assms
  by (auto simp: post_uploads_def invalid_request_def Let_def split: option.splits)

lemma get_status_timeout:
  "g_timeout d < timeoutRate cfg \<Longrightarrow>
   get_status cfg d uploadId s =
     (Inr \<lparr> code = 504, rbody = error_body ''Gateway timeout'', waited = 35000 \<rparr>, s)"
  by (simp add: get_status_def)

text \<open>
  C6. The simulated timeout of POST /uploads and of the status query, and the simulated
  upload failure, answer with their error response and leave the state as it was; the
  answer is the same whatever the state is.
\<close>

theorem C6_simulated_errors_frame:
  "(r_timeout d < timeoutRate cfg \<longrightarrow>
      post_uploads cfg parse d uploadId now req s =
        (Inr \<lparr> code = 504, rbody = error_body ''Gateway timeout'', waited = 35000 \<rparr>, s)) \<and>
   (\<not> r_timeout d < timeoutRate cfg \<and> r_fail d < uploadFailureRate cfg \<longrightarrow>
      snd (post_uploads cfg parse d uploadId now req s) = s \<and>
      fst (post_uploads cfg parse d uploadId now req s) =
        fst (post_uploads cfg parse d uploadId now req s') \<and>
      (0 \<le> r_pick d \<and> r_pick d < 1 \<longrightarrow>
         fst (post_uploads cfg parse d uploadId now req s) =
           Inr (if r_pick d < 1 / 2
                then \<lparr> code = 500, rbody = error_body ''Internal server error'', waited = 0 \<rparr>
                else \<lparr> code = 503, rbody = error_body ''Service temporarily unavailable'',
                       waited = 0 \<rparr>))) \<and>
   (g_timeout g < timeoutRate cfg \<longrightarrow>
      get_status cfg g uploadId s =
        (Inr \<lparr> code = 504, rbody = error_body ''Gateway timeout'', waited = 35000 \<rparr>, s))"
  by (simp add: post_uploads_timeout post_uploads_failure get_status_timeout pick_error_draw)

theorem C6_simulated_errors_frame_witness:
  "r_timeout timeout_draws < timeoutRate CONFIG \<and>
   post_uploads CONFIG no_parse timeout_draws ''u2'' 2000 example_request example_state =
     (Inr \<lparr> code = 504, rbody = error_body ''Gateway timeout'', waited = 35000 \<rparr>, example_state) \<and>
   \<not> r_timeout failure_draws < timeoutRate CONFIG \<and>
   r_fail failure_draws < uploadFailureRate CONFIG \<and>
   0 \<le> r_pick failure_draws \<and> r_pick failure_draws < 1 \<and>
   post_uploads CONFIG no_parse failure_draws ''u2'' 2000 example_request example_state =
     (Inr \<lparr> code = 503, rbody = error_body ''Service temporarily unavailable'', waited = 0 \<rparr>,
      example_state) \<and>
   fst (post_uploads CONFIG no_parse failure_draws ''u2'' 2000 example_request example_state) =
     fst (post_uploads CONFIG no_parse failure_draws ''u2'' 2000 example_request init_state) \<and>
   g_timeout (example_get_draws\<lparr> g_timeout := 0 \<rparr>) < timeoutRate CONFIG \<and>
   get_status CONFIG (example_get_draws\<lparr> g_timeout := 0 \<rparr>) ''u2'' example_state =
     (Inr \<lparr> code = 504, rbody = error_body ''Gateway timeout'', waited = 35000 \<rparr>, example_state)"
proof -
  have a: "r_timeout timeout_draws < timeoutRate CONFIG"
    by (simp add: timeout_draws_def example_draws_def CONFIG_def)
  have b: "\<not> r_timeout failure_draws < timeoutRate CONFIG"
      "r_fail failure_draws < uploadFailureRate CONFIG"
      "0 \<le> r_pick failure_draws" "r_pick failure_draws < 1" "\<not> r_pick failure_draws < 1 / 2"
    by (simp_all add: failure_draws_def example_draws_def CONFIG_def)
  have c: "g_timeout (example_get_draws\<lparr> g_timeout := 0 \<rparr>) < timeoutRate CONFIG"
    by (simp add: CONFIG_def)
  show ?thesis
    using a b c
      C6_simulated_errors_frame [of timeout_draws CONFIG no_parse "''u2''" 2000 example_request
        example_state init_state "example_get_draws\<lparr> g_timeout := 0 \<rparr>"]
      C6_simulated_errors_frame [of failure_draws CONFIG no_parse "''u2''" 2000 example_request
        example_state init_state "example_get_draws\<lparr> g_timeout := 0 \<rparr>"]
    by (auto simp: prod_eq_iff)
qed

text \<open>
  A request without an audio file whose draws take the slow-down branch: the answer is
  the 400 of the validation, two seconds late.
\<close>

theorem C10_slow_down_counterexample:
  "invalid_request empty_request \<and>
   r_slow slow_draws < 2 / 10 \<and>
   post_uploads CONFIG no_parse slow_draws ''u2'' 2000 empty_request example_state =
     (Inr \<lparr> code = 400, rbody = error_body ''No audio file uploaded'', waited = 2000 \<rparr>,
      example_state)"
  by (simp add: invalid_request_def empty_request_def first_audio_def slow_draws_def
      example_draws_def CONFIG_def post_uploads_def)

text \<open>
  C10. For a request without an audio file or with an unsupported format, the
  random draws come first: a timeout draw gives 504, otherwise a failure draw gives 500 or
  503, and the 400 of the validation is the answer exactly when neither of these two
  branches is taken. The slow-down draw only delays the answer. The state is unchanged in
  every case.
\<close>

theorem C10_validation_after_draws:
  assumes "invalid_request req" and "0 \<le> r_pick d" and "r_pick d < 1"
  shows "snd (post_uploads cfg parse d uploadId now req s) = s \<and>
     (r_timeout d < timeoutRate cfg \<longrightarrow>
        fst (post_uploads cfg parse d uploadId now req s) =
          Inr \<lparr> code = 504, rbody = error_body ''Gateway timeout'', waited = 35000 \<rparr>) \<and>
     (\<not> r_timeout d < timeoutRate cfg \<and> r_fail d < uploadFailureRate cfg \<longrightarrow>
        (\<exists>resp. fst (post_uploads cfg parse d uploadId now req s) = Inr resp \<and>
                (code resp = 500 \<or> code resp = 503) \<and> waited resp = 0)) \<and>
     ((\<exists>resp. fst (post_uploads cfg parse d uploadId now req s) = Inr resp \<and> code resp = 400) =
        (\<not> r_timeout d < timeoutRate cfg \<and> \<not> r_fail d < uploadFailureRate cfg)) \<and>
     (\<not> r_timeout d < timeoutRate cfg \<and> \<not> r_fail d < uploadFailureRate cfg \<longrightarrow>
        (\<exists>resp. fst (post_uploads cfg parse d uploadId now req s) = Inr resp \<and>
                waited resp = (if r_slow d < 2 / 10 then 1000 + r_delay d * 2000 else 0)))"
proof (cases "r_timeout d < timeoutRate cfg")
  case True
  then show ?thesis
    by (simp add: post_uploads_timeout)
next
  case no_timeout: False
  show ?thesis
  proof (cases "r_fail d < uploadFailureRate cfg")
    case True
    then show ?thesis
      using no_timeout assms(2,3)
      by (simp add: post_uploads_failure pick_error_draw)
  next
    case False
    obtain msg where "post_uploads cfg parse d uploadId now req s =
        (Inr \<lparr> code = 400, rbody = error_body msg,
               waited = (if r_slow d < 2 / 10 then 1000 + r_delay d * 2000 else 0) \<rparr>, s)"
      using post_uploads_invalid [OF no_timeout False assms(1)] by blast
    then show ?thesis
      using no_timeout False by simp
  qed
qed

theorem C10_validation_after_draws_witness:
  "invalid_request empty_request \<and> 0 \<le> r_pick timeout_draws \<and> r_pick timeout_draws < 1 \<and>
   r_timeout timeout_draws < timeoutRate CONFIG \<and>
   fst (post_uploads CONFIG no_parse timeout_draws ''u2'' 2000 empty_request example_state) =
     Inr \<lparr> code = 504, rbody = error_body ''Gateway timeout'', waited = 35000 \<rparr> \<and>
   snd (post_uploads CONFIG no_parse timeout_draws ''u2'' 2000 empty_request example_state) =
     example_state"
proof -
  have a: "invalid_request empty_request"
    by (simp add: invalid_request_def empty_request_def first_audio_def)
  have b: "0 \<le> r_pick timeout_draws" "r_pick timeout_draws < 1"
      "r_timeout timeout_draws < timeoutRate CONFIG"
    by (simp_all add: timeout_draws_def example_draws_def CONFIG_def)
  show ?thesis
    using a b C10_validation_after_draws [OF a b(1,2), of CONFIG no_parse "''u2''" 2000 example_state]
    by simp
qed


lemma accepted_iff:
  "accepted res \<longleftrightarrow> (\<exists>resp. res = Inr resp \<and> code resp = 202)"
  by (cases res) (simp_all add: accepted_def)

lemma post_uploads_accepted_state:
  assumes "accepted (fst (post_uploads cfg parse d uploadId now req s))"
  shows "\<exists>audioFile. first_audio (files req) = Some audioFile \<and>
           mimetype audioFile \<in> set SUPPORTED_AUDIO_TYPES \<and>
           \<not> r_timeout d < timeoutRate cfg \<and> \<not> r_fail d < uploadFailureRate cfg \<and>
           snd (post_uploads cfg parse d uploadId now req s) =
             s\<lparr> uploads := AList.update uploadId
                    (new_upload cfg d uploadId now audioFile (build_metadata parse req)) (uploads s),
                intervals := AList.update (next_timer s)
                    (uploadId, minProcessingTime cfg
                       + r_time d * (maxProcessingTime cfg - minProcessingTime cfg))
                    (intervals s),
                next_timer := Suc (next_timer s) \<rparr>"
proof -
  obtain resp where resp: "fst (post_uploads cfg parse d uploadId now req s) = Inr resp"
      "code resp = 202"
    using assms unfolding accepted_iff by blast
  then have "post_uploads cfg parse d uploadId now req s =
      (Inr resp, snd (post_uploads cfg parse d uploadId now req s))"
    by (simp add: prod_eq_iff)
  from post_uploads_accepted [OF this resp(2)] show ?thesis
    by (auto simp: simulateProcessing_stored)
qed

text \<open>
  C4. With \<open>minProcessingTime = maxProcessingTime = 0\<close> an accepted upload is stored as
  queued with a timer whose \<open>totalTime\<close> is 0. At the first tick, which runs later than
  the creation, the division by zero gives \<open>Infinity\<close>, the progress is 100, and the one
  callback takes the record from queued to failed or completed and clears the timer: the
  record is never observed in the processing state.
\<close>

theorem C4_zero_duration:
  assumes "minProcessingTime cfg = 0" and "maxProcessingTime cfg = 0"
    and "accepted (fst (post_uploads cfg parse d uploadId now0 req s))"
    and "now0 < now"
  shows "let s1 = snd (post_uploads cfg parse d uploadId now0 req s);
             s2 = interval_callback (next_timer s) now now2 r s1
         in \<exists>u0 u1. map_of (uploads s1) uploadId = Some u0 \<and> status u0 = Queued \<and>
              map_of (intervals s1) (next_timer s) = Some (uploadId, 0) \<and>
              compute_progress 0 (createdAt u0) now = Fin 100 \<and>
              map_of (uploads s2) uploadId = Some u1 \<and> progress u1 = Fin 100 \<and>
              status u1 = (if willFail u0 then Failed else Completed) \<and>
              map_of (intervals s2) (next_timer s) = None"
proof -
  let ?s1 = "snd (post_uploads cfg parse d uploadId now0 req s)"
  obtain audioFile where s1: "?s1 =
      s\<lparr> uploads := AList.update uploadId
             (new_upload cfg d uploadId now0 audioFile (build_metadata parse req)) (uploads s),
         intervals := AList.update (next_timer s) (uploadId, 0) (intervals s),
         next_timer := Suc (next_timer s) \<rparr>"
    using post_uploads_accepted_state [OF assms(3)] assms(1,2) by auto
  let ?u0 = "new_upload cfg d uploadId now0 audioFile (build_metadata parse req)"
  have u0: "map_of (uploads ?s1) uploadId = Some ?u0"
    by (simp add: s1 update_conv')
  have h: "map_of (intervals ?s1) (next_timer s) = Some (uploadId, 0)"
    by (simp add: s1 update_conv')
  have p: "compute_progress 0 (createdAt ?u0) now = Fin 100"
    using assms(4) by (simp add: compute_progress_zero)
  then have ge: "js_ge (compute_progress 0 (createdAt ?u0) now) 100"
    by simp
  have "map_of (uploads (interval_callback (next_timer s) now now2 r ?s1)) uploadId =
          Some (fst (tick_record 0 now now2 r ?u0)) \<and>
        map_of (intervals (interval_callback (next_timer s) now now2 r ?s1)) (next_timer s) = None"
    unfolding interval_callback_found [OF h u0] tick_record_terminal [OF ge]
    by (simp add: update_conv' delete_conv')
  moreover have "progress (fst (tick_record 0 now now2 r ?u0)) = Fin 100"
    "status (fst (tick_record 0 now now2 r ?u0)) = (if willFail ?u0 then Failed else Completed)"
    unfolding tick_record_terminal [OF ge] by simp_all
  ultimately show ?thesis
    unfolding Let_def using u0 h p by (intro exI [of _ ?u0] exI) simp
qed

lemma zero_post:
  "post_uploads zero_config no_parse example_draws ''u1'' 1000 example_request init_state =
     (Inr \<lparr> code = 202,
            rbody = JObj [(''uploadId'', JStr ''u1''), (''status'', JStr ''queued''),
                          (''message'', JStr ''Upload accepted and queued for transcription'')],
            waited = 0 \<rparr>,
      \<lparr> uploads = [(''u1'', example_upload\<lparr> completesAt := 1000 \<rparr>)],
        intervals = [(0, ''u1'', 0)], next_timer = 1 \<rparr>)"
  by (simp add: post_uploads_def example_draws_def CONFIG_def zero_config_def example_request_def
      first_audio_def example_audio_def SUPPORTED_AUDIO_TYPES_def init_state_def
      simulateProcessing_def example_upload_def new_upload_def Let_def)

theorem C4_zero_duration_witness:
  "minProcessingTime zero_config = 0 \<and> maxProcessingTime zero_config = 0 \<and>
   accepted (fst (post_uploads zero_config no_parse example_draws ''u1'' 1000 example_request
     init_state)) \<and>
   (1000 :: int) < 1001 \<and>
   (\<exists>u1. map_of (uploads (interval_callback 0 1001 1002 0
             (snd (post_uploads zero_config no_parse example_draws ''u1'' 1000 example_request
                init_state)))) ''u1'' = Some u1 \<and>
         progress u1 = Fin 100 \<and> status u1 = Completed)"
proof -
  have a: "minProcessingTime zero_config = 0" "maxProcessingTime zero_config = 0"
    by (simp_all add: zero_config_def)
  have b: "accepted (fst (post_uploads zero_config no_parse example_draws ''u1'' 1000
             example_request init_state))"
    by (simp add: zero_post accepted_def)
  have c: "(1000 :: int) < 1001"
    by simp
  have n: "next_timer init_state = 0"
    by (simp add: init_state_def)
  show ?thesis
    using a b C4_zero_duration [OF a b c, of 1002 0]
    by (auto simp: Let_def zero_post n example_upload_simps)
qed

subsection \<open>Metadata\<close>

lemma map_of_spread: "map_of (spread a b) = map_of a ++ map_of b"
  by (simp add: spread_def merge_conv')

lemma defaults_overridden:
  "map_of [(''language'', or_default (m ''language'') (JStr ''en'')),
           (''speakerCount'', or_default (m ''speakerCount'') (JNum (Fin 1)))] ++ m =
   map_of [(''language'', JStr ''en''), (''speakerCount'', JNum (Fin 1))] ++ m"
  by (rule ext) (auto simp: map_add_def or_default_def split: option.splits)

lemma map_of_build_metadata:
  "map_of (build_metadata parse req) =
     map_of [(''language'', JStr ''en''), (''speakerCount'', JNum (Fin 1))] ++ map_of (body req) ++
     (case first_config (files req) of
        None \<Rightarrow> Map.empty
      | Some configFile \<Rightarrow>
          (case parse (buffer configFile) of
             None \<Rightarrow> Map.empty
           | Some cfg \<Rightarrow> map_of (own_props cfg)))"
proof -
  have "map_of (spread [(''language'', or_default (map_of (body req) ''language'') (JStr ''en'')),
                        (''speakerCount'',
                           or_default (map_of (body req) ''speakerCount'') (JNum (Fin 1)))]
                       (body req)) =
        map_of [(''language'', JStr ''en''), (''speakerCount'', JNum (Fin 1))] ++ map_of (body req)"
    by (simp only: map_of_spread defaults_overridden)
  note base = this
  show ?thesis
  proof (cases "first_config (files req)")
    case None
    then show ?thesis
      unfolding build_metadata_def Let_def by (simp add: base del: map_of.simps)
  next
    case (Some configFile)
    then show ?thesis
      unfolding build_metadata_def Let_def
      by (cases "parse (buffer configFile)")
         (simp_all add: map_of_spread defaults_overridden del: map_of.simps)
  qed
qed

lemma first_audio_without_config [simp]:
  "first_audio (files (without_config req)) = first_audio (files req)"
  by (cases "files req") (simp_all add: without_config_def first_audio_def)

lemma first_config_without_config [simp]:
  "first_config (files (without_config req)) = None"
  by (cases "files req") (simp_all add: without_config_def first_config_def)

lemma body_without_config [simp]: "body (without_config req) = body req"
  by (simp add: without_config_def)

lemma build_metadata_ignores_invalid:
  assumes "first_config (files req) = Some configFile" and "parse (buffer configFile) = None"
  shows "build_metadata parse req = build_metadata parse (without_config req)"
  using assms by (simp add: build_metadata_def Let_def)

lemma post_uploads_request:
  assumes "first_audio (files req) = first_audio (files req')"
    and "build_metadata parse req = build_metadata parse req'"
  shows "post_uploads cfg parse d uploadId now req s = post_uploads cfg parse d uploadId now req' s"
  unfolding post_uploads_def assms by (rule refl)

lemma map_of_own_props:
  "map_of (own_props cfg) =
     (case cfg of
        JObj kvs \<Rightarrow> map_of kvs
      | JArr xs \<Rightarrow> map_of (map (\<lambda>(i, x). (index_key i, x)) (enumerate 0 xs))
      | JStr t \<Rightarrow> map_of (map (\<lambda>(i, c). (index_key i, JStr [c])) (enumerate 0 t))
      | _ \<Rightarrow> Map.empty)"
  by (cases cfg) simp_all

lemma post_uploads_stored_metadata:
  assumes "accepted (fst (post_uploads cfg parse d uploadId now req s))"
  shows "\<exists>u. map_of (uploads (snd (post_uploads cfg parse d uploadId now req s))) uploadId = Some u \<and>
            metadata u = build_metadata parse req"
proof -
  obtain audioFile where
    "snd (post_uploads cfg parse d uploadId now req s) =
       s\<lparr> uploads := AList.update uploadId
              (new_upload cfg d uploadId now audioFile (build_metadata parse req)) (uploads s),
          intervals := AList.update (next_timer s)
              (uploadId, minProcessingTime cfg
                 + r_time d * (maxProcessingTime cfg - minProcessingTime cfg))
              (intervals s),
          next_timer := Suc (next_timer s) \<rparr>"
    using post_uploads_accepted_state [OF assms] by blast
  then show ?thesis
    by (simp add: update_conv')
qed

text \<open>
  C8. For an accepted upload the stored metadata is, as a mapping, the defaults
  \<open>language = en\<close> and \<open>speakerCount = 1\<close>, overridden by the fields of the request
  body, overridden by what the parsed configuration file contributes when there is one
  and it parses: the fields of a JSON object, the indexed elements of an array, the
  indexed characters of a string, and nothing for \<open>null\<close>, a boolean or a number. In
  particular the fields of a parsed object are merged over the defaults and the body.
  When the configuration file does not parse, the handler does exactly what it does for
  the same request without the file.
\<close>

theorem C8_metadata_merge:
  assumes "accepted (fst (post_uploads cfg parse d uploadId now req s))"
  shows "(\<exists>u. map_of (uploads (snd (post_uploads cfg parse d uploadId now req s))) uploadId = Some u \<and>
            map_of (metadata u) =
              map_of [(''language'', JStr ''en''), (''speakerCount'', JNum (Fin 1))]
                ++ map_of (body req)
                ++ (case first_config (files req) of
                      None \<Rightarrow> Map.empty
                    | Some configFile \<Rightarrow>
                        (case parse (buffer configFile) of
                           None \<Rightarrow> Map.empty
                         | Some cfg \<Rightarrow>
                             (case cfg of
                                JObj kvs \<Rightarrow> map_of kvs
                              | JArr xs \<Rightarrow>
                                  map_of (map (\<lambda>(i, x). (index_key i, x)) (enumerate 0 xs))
                              | JStr t \<Rightarrow>
                                  map_of (map (\<lambda>(i, c). (index_key i, JStr [c])) (enumerate 0 t))
                              | _ \<Rightarrow> Map.empty)))) \<and>
         (\<forall>configFile kvs. first_config (files req) = Some configFile \<and>
              parse (buffer configFile) = Some (JObj kvs) \<longrightarrow>
            (\<exists>u. map_of (uploads (snd (post_uploads cfg parse d uploadId now req s))) uploadId
                   = Some u \<and>
                 map_of (metadata u) =
                   map_of [(''language'', JStr ''en''), (''speakerCount'', JNum (Fin 1))]
                     ++ map_of (body req) ++ map_of kvs)) \<and>
         (\<forall>configFile. first_config (files req) = Some configFile \<and>
              parse (buffer configFile) = None \<longrightarrow>
            post_uploads cfg parse d uploadId now req s =
              post_uploads cfg parse d uploadId now (without_config req) s)"
proof (intro conjI allI impI)
  obtain u where u: "map_of (uploads (snd (post_uploads cfg parse d uploadId now req s))) uploadId
        = Some u" "metadata u = build_metadata parse req"
    using post_uploads_stored_metadata [OF assms] by blast
  show "\<exists>u. map_of (uploads (snd (post_uploads cfg parse d uploadId now req s))) uploadId
        = Some u \<and>
      map_of (metadata u) =
        map_of [(''language'', JStr ''en''), (''speakerCount'', JNum (Fin 1))]
          ++ map_of (body req)
          ++ (case first_config (files req) of
                None \<Rightarrow> Map.empty
              | Some configFile \<Rightarrow>
                  (case parse (buffer configFile) of
                     None \<Rightarrow> Map.empty
                   | Some cfg \<Rightarrow>
                       (case cfg of
                          JObj kvs \<Rightarrow> map_of kvs
                        | JArr xs \<Rightarrow>
                            map_of (map (\<lambda>(i, x). (index_key i, x)) (enumerate 0 xs))
                        | JStr t \<Rightarrow>
                            map_of (map (\<lambda>(i, c). (index_key i, JStr [c])) (enumerate 0 t))
                        | _ \<Rightarrow> Map.empty)))"
    using u unfolding map_of_own_props [symmetric]
    by (intro exI [of _ u]) (simp only: map_of_build_metadata)
  fix configFile kvs
  assume "first_config (files req) = Some configFile \<and>
          parse (buffer configFile) = Some (JObj kvs)"
  then have "map_of (build_metadata parse req) =
      map_of [(''language'', JStr ''en''), (''speakerCount'', JNum (Fin 1))]
        ++ map_of (body req) ++ map_of kvs"
    unfolding map_of_build_metadata by (simp del: map_of.simps)
  then show "\<exists>u. map_of (uploads (snd (post_uploads cfg parse d uploadId now req s))) uploadId
        = Some u \<and>
      map_of (metadata u) =
        map_of [(''language'', JStr ''en''), (''speakerCount'', JNum (Fin 1))]
          ++ map_of (body req) ++ map_of kvs"
    using u by (intro exI [of _ u]) (simp del: map_of.simps)
next
  fix configFile
  assume "first_config (files req) = Some configFile \<and> parse (buffer configFile) = None"
  then have "build_metadata parse req = build_metadata parse (without_config req)"
    using build_metadata_ignores_invalid by blast
  then show "post_uploads cfg parse d uploadId now req s =
      post_uploads cfg parse d uploadId now (without_config req) s"
    by (intro post_uploads_request) simp_all
qed

lemma example_parse_simps:
  "example_parse ''{bad'' = None" "example_parse ''[true]'' = Some (JArr [JBool True])"
  "example_parse object_text =
     Some (JObj [(''speakerCount'', JNum (Fin 2)), (''model'', JStr ''large'')])"
  by (simp_all add: example_parse_def object_text_def quoted_def)

lemma config_request_simps:
  "first_audio (files (config_request b)) = Some example_audio"
  "first_config (files (config_request b)) =
     Some \<lparr> originalname = ''c.json'', mimetype = ''application/json'', size_f = length b,
            buffer = b \<rparr>"
  "body (config_request b) = [(''language'', JStr ''de'')]"
  by (simp_all add: config_request_def first_audio_def first_config_def)

lemma config_post_accepted:
  "accepted (fst (post_uploads CONFIG parse example_draws ''u1'' 1000 (config_request b) init_state))"
  by (simp add: post_uploads_def config_request_simps example_draws_def CONFIG_def accepted_def
      example_audio_def SUPPORTED_AUDIO_TYPES_def Let_def)

theorem C8_metadata_merge_witness:
  "accepted (fst (post_uploads CONFIG example_parse example_draws ''u1'' 1000
     (config_request ''{bad'') init_state)) \<and>
   example_parse (buffer \<lparr> originalname = ''c.json'', mimetype = ''application/json'',
                           size_f = length ''{bad'', buffer = ''{bad'' \<rparr>) = None \<and>
   post_uploads CONFIG example_parse example_draws ''u1'' 1000 (config_request ''{bad'') init_state =
     post_uploads CONFIG example_parse example_draws ''u1'' 1000
       (without_config (config_request ''{bad'')) init_state \<and>
   accepted (fst (post_uploads CONFIG example_parse example_draws ''u1'' 1000
     (config_request ''[true]'') init_state)) \<and>
   (\<exists>u. map_of (uploads (snd (post_uploads CONFIG example_parse example_draws ''u1'' 1000
                 (config_request ''[true]'') init_state))) ''u1'' = Some u \<and>
        map_of (metadata u) ''language'' = Some (JStr ''de'') \<and>
        map_of (metadata u) ''speakerCount'' = Some (JNum (Fin 1)) \<and>
        map_of (metadata u) ''0'' = Some (JBool True)) \<and>
   accepted (fst (post_uploads CONFIG example_parse example_draws ''u1'' 1000
     (config_request object_text) init_state)) \<and>
   example_parse (buffer \<lparr> originalname = ''c.json'', mimetype = ''application/json'',
                           size_f = length object_text, buffer = object_text \<rparr>) =
     Some (JObj [(''speakerCount'', JNum (Fin 2)), (''model'', JStr ''large'')]) \<and>
   (\<exists>u. map_of (uploads (snd (post_uploads CONFIG example_parse example_draws ''u1'' 1000
                 (config_request object_text) init_state))) ''u1'' = Some u \<and>
        map_of (metadata u) ''language'' = Some (JStr ''de'') \<and>
        map_of (metadata u) ''speakerCount'' = Some (JNum (Fin 2)) \<and>
        map_of (metadata u) ''model'' = Some (JStr ''large''))"
proof -
  have a: "accepted (fst (post_uploads CONFIG example_parse example_draws ''u1'' 1000
             (config_request ''{bad'') init_state))"
    by (rule config_post_accepted)
  have b: "accepted (fst (post_uploads CONFIG example_parse example_draws ''u1'' 1000
             (config_request ''[true]'') init_state))"
    by (rule config_post_accepted)
  have c: "example_parse (buffer \<lparr> originalname = ''c.json'', mimetype = ''application/json'',
             size_f = length ''{bad'', buffer = ''{bad'' \<rparr>) = None"
    by (simp add: example_parse_simps)
  have d: "accepted (fst (post_uploads CONFIG example_parse example_draws ''u1'' 1000
             (config_request object_text) init_state))"
    by (rule config_post_accepted)
  have e: "example_parse (buffer \<lparr> originalname = ''c.json'', mimetype = ''application/json'',
             size_f = length object_text, buffer = object_text \<rparr>) =
           Some (JObj [(''speakerCount'', JNum (Fin 2)), (''model'', JStr ''large'')])"
    by (simp add: example_parse_simps)
  have bad: "post_uploads CONFIG example_parse example_draws ''u1'' 1000
               (config_request ''{bad'') init_state =
             post_uploads CONFIG example_parse example_draws ''u1'' 1000
               (without_config (config_request ''{bad'')) init_state"
    using C8_metadata_merge [OF a] c by (simp add: config_request_simps)
  have arr: "\<exists>u. map_of (uploads (snd (post_uploads CONFIG example_parse example_draws ''u1'' 1000
                 (config_request ''[true]'') init_state))) ''u1'' = Some u \<and>
        map_of (metadata u) ''language'' = Some (JStr ''de'') \<and>
        map_of (metadata u) ''speakerCount'' = Some (JNum (Fin 1)) \<and>
        map_of (metadata u) ''0'' = Some (JBool True)"
    using C8_metadata_merge [OF b]
    by (auto simp: config_request_simps example_parse_simps map_add_def)
  have obj: "\<exists>u. map_of (uploads (snd (post_uploads CONFIG example_parse example_draws ''u1'' 1000
                 (config_request object_text) init_state))) ''u1'' = Some u \<and>
        map_of (metadata u) ''language'' = Some (JStr ''de'') \<and>
        map_of (metadata u) ''speakerCount'' = Some (JNum (Fin 2)) \<and>
        map_of (metadata u) ''model'' = Some (JStr ''large'')"
    using C8_metadata_merge [OF d] e
    by (auto simp: config_request_simps example_parse_simps map_add_def)
  show ?thesis
    using a b c d e bad arr obj by blast
qed

subsection \<open>What the responses show\<close>

lemma status_response_hides:
  "status_response (u\<lparr> willFail := b, completesAt := c \<rparr>) = status_response u"
  by (simp add: status_response_def Let_def split: sum.splits)

lemma summary_hides:
  "summary (u\<lparr> willFail := b, completesAt := c \<rparr>) = summary u"
  by (simp add: summary_def split: sum.splits)

lemma status_response_willFail:
  "status_response (u\<lparr> willFail := b \<rparr>) = status_response u"
  by (simp add: status_response_def Let_def split: sum.splits)

lemma summary_willFail:
  "summary (u\<lparr> willFail := b \<rparr>) = summary u"
  by (simp add: summary_def split: sum.splits)

lemma map_of_reflag:
  "map_of (uploads (reflag w c s)) k =
     map_option (\<lambda>u. u\<lparr> willFail := w k, completesAt := c k \<rparr>) (map_of (uploads s) k)"
proof -
  have "map_of (map (\<lambda>(k, u). (k, u\<lparr> willFail := w k, completesAt := c k \<rparr>)) xs) k =
        map_option (\<lambda>u. u\<lparr> willFail := w k, completesAt := c k \<rparr>) (map_of xs k)" for xs
    by (induction xs) auto
  then show ?thesis
    by (simp add: reflag_def)
qed

lemma summaries_reflag:
  "summaries (map snd (uploads (reflag w c s))) = summaries (map snd (uploads s))"
proof -
  have "summaries (map snd (map (\<lambda>(k, u). (k, u\<lparr> willFail := w k, completesAt := c k \<rparr>)) xs)) =
        summaries (map snd xs)" for xs
    by (induction xs) (auto simp: summary_hides split: sum.splits)
  then show ?thesis
    by (simp add: reflag_def)
qed

lemma get_status_reflag:
  "fst (get_status cfg d k (reflag w c s)) = fst (get_status cfg d k s)"
  by (cases "map_of (uploads s) k")
     (simp_all add: get_status_def map_of_reflag Let_def status_response_hides split: sum.splits)

lemma list_uploads_reflag:
  "fst (list_uploads (reflag w c s)) = fst (list_uploads s)"
  by (simp add: list_uploads_def summaries_reflag split: sum.splits)

lemma tick_record_willFail_running:
  assumes "\<not> js_ge (compute_progress totalTime (createdAt u) now) 100"
  shows "tick_record totalTime now now2 r (u\<lparr> willFail := b \<rparr>) =
     ((fst (tick_record totalTime now now2 r u))\<lparr> willFail := b \<rparr>, False)"
    and "snd (tick_record totalTime now now2 r u) = False"
  using assms by (simp_all add: tick_record_running)

lemma run_ticks_cleared:
  "snd (tick_record totalTime now now2 r u) \<Longrightarrow>
   run_ticks totalTime ((now, now2, r) # ts) u = [fst (tick_record totalTime now now2 r u)]"
  by (simp add: split_beta)

lemma run_ticks_running:
  "\<not> snd (tick_record totalTime now now2 r u) \<Longrightarrow>
   run_ticks totalTime ((now, now2, r) # ts) u =
     fst (tick_record totalTime now now2 r u)
       # run_ticks totalTime ts (fst (tick_record totalTime now now2 r u))"
  by (simp add: split_beta)

lemma run_ticks_willFail:
  "list_all2 (\<lambda>v v'. (terminal (status v) \<longleftrightarrow> terminal (status v')) \<and>
              (\<not> terminal (status v) \<longrightarrow> v' = v\<lparr> willFail := b \<rparr>))
     (run_ticks totalTime ts u) (run_ticks totalTime ts (u\<lparr> willFail := b \<rparr>))"
proof (induction ts arbitrary: u)
  case Nil
  show ?case by simp
next
  case (Cons t ts)
  obtain now now2 r where t: "t = (now, now2, r)"
    by (cases t) auto
  let ?v = "fst (tick_record totalTime now now2 r u)"
  let ?v' = "fst (tick_record totalTime now now2 r (u\<lparr> willFail := b \<rparr>))"
  show ?case
  proof (cases "js_ge (compute_progress totalTime (createdAt u) now) 100")
    case True
    have "run_ticks totalTime (t # ts) u = [?v]"
      "run_ticks totalTime (t # ts) (u\<lparr> willFail := b \<rparr>) = [?v']"
      unfolding t using True
      by (simp_all add: run_ticks_cleared tick_record_cleared del: run_ticks.simps)
    moreover have "terminal (status ?v)" "terminal (status ?v')"
      using True by (simp_all add: tick_record_status_terminal)
    ultimately show ?thesis
      by simp
  next
    case False
    have v': "?v' = ?v\<lparr> willFail := b \<rparr>"
      by (simp add: tick_record_willFail_running(1) [OF False])
    have "run_ticks totalTime (t # ts) u = ?v # run_ticks totalTime ts ?v"
      "run_ticks totalTime (t # ts) (u\<lparr> willFail := b \<rparr>) = ?v' # run_ticks totalTime ts ?v'"
      unfolding t using False
      by (simp_all add: run_ticks_running tick_record_cleared del: run_ticks.simps)
    then show ?thesis
      unfolding v' using Cons.IH [of ?v] by (simp add: tick_record_status_terminal)
  qed
qed

text \<open>
  C9. Changing the \<open>willFail\<close> flags and the \<open>completesAt\<close> times of the stored records
  changes neither a status response nor the listing. Two records that differ only in
  \<open>willFail\<close> and receive the same ticks become terminal at the same tick, and every
  status response and summary taken before that is the same for both.
\<close>

theorem C9_outcome_hidden:
  "fst (get_status cfg d k (reflag w c s)) = fst (get_status cfg d k s) \<and>
   fst (list_uploads (reflag w c s)) = fst (list_uploads s) \<and>
   list_all2 (\<lambda>v v'. (terminal (status v) \<longleftrightarrow> terminal (status v')) \<and>
                (\<not> terminal (status v) \<longrightarrow>
                   status_response v' = status_response v \<and> summary v' = summary v))
     (run_ticks totalTime ts u) (run_ticks totalTime ts (u\<lparr> willFail := b \<rparr>))"
proof (intro conjI)
  show "fst (get_status cfg d k (reflag w c s)) = fst (get_status cfg d k s)"
    by (rule get_status_reflag)
  show "fst (list_uploads (reflag w c s)) = fst (list_uploads s)"
    by (rule list_uploads_reflag)
  show "list_all2 (\<lambda>v v'. (terminal (status v) \<longleftrightarrow> terminal (status v')) \<and>
                (\<not> terminal (status v) \<longrightarrow>
                   status_response v' = status_response v \<and> summary v' = summary v))
     (run_ticks totalTime ts u) (run_ticks totalTime ts (u\<lparr> willFail := b \<rparr>))"
  proof (rule list_all2_mono [OF run_ticks_willFail])
    fix v v' :: upload
    assume rel: "(terminal (status v) \<longleftrightarrow> terminal (status v')) \<and>
            (\<not> terminal (status v) \<longrightarrow> v' = v\<lparr> willFail := b \<rparr>)"
    show "(terminal (status v) \<longleftrightarrow> terminal (status v')) \<and>
            (\<not> terminal (status v) \<longrightarrow>
               status_response v' = status_response v \<and> summary v' = summary v)"
    proof (intro conjI impI)
      show "terminal (status v) \<longleftrightarrow> terminal (status v')"
        using rel by (rule conjunct1)
    next
      assume "\<not> terminal (status v)"
      with rel have v': "v' = v\<lparr> willFail := b \<rparr>"
        by blast
      show "status_response v' = status_response v"
        unfolding v' by (rule status_response_willFail)
      show "summary v' = summary v"
        unfolding v' by (rule summary_willFail)
    qed
  qed
qed

theorem C9_outcome_hidden_witness:
  "\<not> terminal (status (fst (tick_record 5000 2000 2000 0 example_upload))) \<and>
   map status_response (run_ticks 5000 [(2000, 2000, 0)] (example_upload\<lparr> willFail := True \<rparr>)) =
     map status_response (run_ticks 5000 [(2000, 2000, 0)] example_upload) \<and>
   fst (get_status CONFIG example_get_draws ''u1'' (reflag (\<lambda>k. True) (\<lambda>k. 0) example_state)) =
     fst (get_status CONFIG example_get_draws ''u1'' example_state) \<and>
   fst (list_uploads (reflag (\<lambda>k. True) (\<lambda>k. 0) example_state)) = fst (list_uploads example_state)"
proof -
  have a: "\<not> js_ge (compute_progress 5000 (createdAt example_upload) 2000) 100"
    by (simp add: example_upload_simps example_progress_early)
  have b: "\<not> terminal (status (fst (tick_record 5000 2000 2000 0 example_upload)))"
    unfolding tick_record_running [OF a] by (simp add: terminal_def example_upload_simps)
  show ?thesis
    using b C9_outcome_hidden [where cfg = CONFIG and d = example_get_draws and k = "''u1''"
        and w = "\<lambda>k. True" and c = "\<lambda>k. 0" and s = example_state and totalTime = 5000
        and ts = "[(2000, 2000, 0)]" and u = example_upload and b = True]
    by (simp add: tick_record_willFail_running [OF a] split_beta)
qed

subsection \<open>Invariants of the runs\<close>

lemma record_ok_new_upload:
  "valid_time now \<Longrightarrow> record_ok (new_upload cfg d uploadId now audioFile md)"
  by (simp add: record_ok_def new_upload_def Let_def)

lemma record_ok_tick_record:
  assumes "record_ok u" and "\<not> terminal (status u)" and "valid_time now2"
  shows "record_ok (fst (tick_record totalTime now now2 r u))"
proof (cases "js_ge (compute_progress totalTime (createdAt u) now) 100")
  case True
  show ?thesis
    unfolding tick_record_terminal [OF True]
    using assms by (cases "status u") (simp_all add: record_ok_def terminal_def)
next
  case False
  show ?thesis
    unfolding tick_record_running [OF False]
    using assms by (cases "status u") (simp_all add: record_ok_def terminal_def)
qed

lemma inv_init_state: "inv init_state"
  by (simp add: inv_def init_state_def)

lemma post_uploads_state:
  "snd (post_uploads cfg parse d uploadId now req s) = s \<or>
   (\<exists>audioFile t. snd (post_uploads cfg parse d uploadId now req s) =
      s\<lparr> uploads := AList.update uploadId
             (new_upload cfg d uploadId now audioFile (build_metadata parse req)) (uploads s),
         intervals := AList.update (next_timer s) (uploadId, t) (intervals s),
         next_timer := Suc (next_timer s) \<rparr>)"
proof (cases "accepted (fst (post_uploads cfg parse d uploadId now req s))")
  case True
  from post_uploads_accepted_state [OF this] show ?thesis
    by blast
next
  case False
  then have "snd (post_uploads cfg parse d uploadId now req s) = s"
    by (auto simp: post_uploads_def Let_def accepted_def split: sum.splits option.splits if_splits)
  then show ?thesis ..
qed

lemma inv_stored:
  assumes "inv s" and "map_of (uploads s) uploadId = None" and "record_ok u"
    and "\<not> terminal (status u)"
  shows "inv (s\<lparr> uploads := AList.update uploadId u (uploads s),
                 intervals := AList.update (next_timer s) (uploadId, t) (intervals s),
                 next_timer := Suc (next_timer s) \<rparr>)"
proof -
  let ?s' = "s\<lparr> uploads := AList.update uploadId u (uploads s),
                intervals := AList.update (next_timer s) (uploadId, t) (intervals s),
                next_timer := Suc (next_timer s) \<rparr>"
  have old: "\<And>k v. map_of (uploads s) k = Some v \<Longrightarrow> record_ok v"
    and live: "\<And>h k t. map_of (intervals s) h = Some (k, t) \<Longrightarrow>
                 h < next_timer s \<and> (\<exists>v. map_of (uploads s) k = Some v \<and> \<not> terminal (status v))"
    and uniq: "\<And>h h' k t t'. map_of (intervals s) h = Some (k, t) \<Longrightarrow>
                 map_of (intervals s) h' = Some (k, t') \<Longrightarrow> h = h'"
    using assms(1) unfolding inv_def by blast+
  have up: "map_of (uploads ?s') = (map_of (uploads s))(uploadId \<mapsto> u)"
    and iv: "map_of (intervals ?s') = (map_of (intervals s))(next_timer s \<mapsto> (uploadId, t))"
    by (simp_all add: update_conv')
  have fresh_timer: "map_of (intervals s) (next_timer s) = None"
    using live by (cases "map_of (intervals s) (next_timer s)") auto
  have other: "k \<noteq> uploadId" if "map_of (intervals s) h = Some (k, t')" for h k t'
    using live [OF that] assms(2) by auto
  have 1: "\<forall>k v. map_of (uploads ?s') k = Some v \<longrightarrow> record_ok v"
    unfolding up using old assms(3) by (auto split: if_splits)
  have 2: "\<forall>h k t'. map_of (intervals ?s') h = Some (k, t') \<longrightarrow>
             h < next_timer ?s' \<and>
             (\<exists>v. map_of (uploads ?s') k = Some v \<and> \<not> terminal (status v))"
  proof (intro allI impI)
    fix h k t'
    assume a: "map_of (intervals ?s') h = Some (k, t')"
    show "h < next_timer ?s' \<and> (\<exists>v. map_of (uploads ?s') k = Some v \<and> \<not> terminal (status v))"
    proof (cases "h = next_timer s")
      case True
      then have "k = uploadId"
        using a unfolding iv by simp
      then show ?thesis
        unfolding up using True assms(4) by simp
    next
      case False
      then have b: "map_of (intervals s) h = Some (k, t')"
        using a unfolding iv by simp
      from live [OF b] other [OF b] show ?thesis
        unfolding up by auto
    qed
  qed
  have 3: "\<forall>h h' k t' t''. map_of (intervals ?s') h = Some (k, t') \<and>
             map_of (intervals ?s') h' = Some (k, t'') \<longrightarrow> h = h'"
  proof (intro allI impI)
    fix h h' k t' t''
    assume a: "map_of (intervals ?s') h = Some (k, t') \<and> map_of (intervals ?s') h' = Some (k, t'')"
    show "h = h'"
    proof (cases "h = next_timer s")
      case True
      then have k: "k = uploadId"
        using a unfolding iv by simp
      show ?thesis
      proof (rule ccontr)
        assume "h \<noteq> h'"
        then have "map_of (intervals s) h' = Some (k, t'')"
          using a True unfolding iv by simp
        from other [OF this] k show False
          by simp
      qed
    next
      case False
      then have b: "map_of (intervals s) h = Some (k, t')"
        using a unfolding iv by simp
      show ?thesis
      proof (cases "h' = next_timer s")
        case True
        then have "k = uploadId"
          using a unfolding iv by simp
        with other [OF b] show ?thesis
          by simp
      next
        case False
        then have "map_of (intervals s) h' = Some (k, t'')"
          using a unfolding iv by simp
        from uniq [OF b this] show ?thesis .
      qed
    qed
  qed
  show ?thesis
    unfolding inv_def using 1 2 3 by blast
qed

lemma inv_post_uploads:
  assumes "inv s" and "map_of (uploads s) uploadId = None" and "valid_time now"
  shows "inv (snd (post_uploads cfg parse d uploadId now req s))"
  using post_uploads_state [of cfg parse d uploadId now req s]
proof (elim disjE exE)
  assume "snd (post_uploads cfg parse d uploadId now req s) = s"
  then show ?thesis
    using assms(1) by simp
next
  fix audioFile t
  assume "snd (post_uploads cfg parse d uploadId now req s) =
      s\<lparr> uploads := AList.update uploadId
             (new_upload cfg d uploadId now audioFile (build_metadata parse req)) (uploads s),
         intervals := AList.update (next_timer s) (uploadId, t) (intervals s),
         next_timer := Suc (next_timer s) \<rparr>"
  then show ?thesis
    using inv_stored [OF assms(1,2) record_ok_new_upload [OF assms(3)]]
    by (simp add: terminal_def)
qed

lemma inv_interval_callback:
  assumes "inv s" and "valid_time now2"
  shows "inv (interval_callback h now now2 r s)"
proof (cases "map_of (intervals s) h")
  case None
  then show ?thesis
    using assms(1) by (simp add: interval_callback_def)
next
  case (Some p)
  obtain uploadId totalTime where p: "p = (uploadId, totalTime)"
    by (cases p) auto
  have h: "map_of (intervals s) h = Some (uploadId, totalTime)"
    using Some p by simp
  have old: "\<And>k v. map_of (uploads s) k = Some v \<Longrightarrow> record_ok v"
    and live: "\<And>h k t. map_of (intervals s) h = Some (k, t) \<Longrightarrow>
                 h < next_timer s \<and> (\<exists>v. map_of (uploads s) k = Some v \<and> \<not> terminal (status v))"
    and uniq: "\<And>h h' k t t'. map_of (intervals s) h = Some (k, t) \<Longrightarrow>
                 map_of (intervals s) h' = Some (k, t') \<Longrightarrow> h = h'"
    using assms(1) unfolding inv_def by blast+
  obtain u where u: "map_of (uploads s) uploadId = Some u" "\<not> terminal (status u)"
    using live [OF h] by blast
  let ?u' = "fst (tick_record totalTime now now2 r u)"
  let ?cleared = "snd (tick_record totalTime now now2 r u)"
  let ?s' = "interval_callback h now now2 r s"
  have s': "?s' = s\<lparr> uploads := AList.update uploadId ?u' (uploads s),
                     intervals := (if ?cleared then AList.delete h (intervals s) else intervals s) \<rparr>"
    by (rule interval_callback_found [OF h u(1)])
  have up: "map_of (uploads ?s') = (map_of (uploads s))(uploadId \<mapsto> ?u')"
    unfolding s' by (simp add: update_conv')
  have iv: "map_of (intervals ?s') h' =
      (if ?cleared \<and> h' = h then None else map_of (intervals s) h')" for h'
    unfolding s' by (simp add: delete_conv')
  have nt: "next_timer ?s' = next_timer s"
    unfolding s' by simp
  have ok': "record_ok ?u'"
    using record_ok_tick_record [OF old [OF u(1)] u(2) assms(2)] .
  have term': "terminal (status ?u') \<longleftrightarrow> ?cleared"
    using u(2) by (simp add: tick_record_status_terminal tick_record_cleared)
  have 1: "\<forall>k v. map_of (uploads ?s') k = Some v \<longrightarrow> record_ok v"
    unfolding up using old ok' by (auto split: if_splits)
  have 2: "\<forall>h' k t'. map_of (intervals ?s') h' = Some (k, t') \<longrightarrow>
             h' < next_timer ?s' \<and>
             (\<exists>v. map_of (uploads ?s') k = Some v \<and> \<not> terminal (status v))"
  proof (intro allI impI)
    fix h' k t'
    assume a: "map_of (intervals ?s') h' = Some (k, t')"
    then have b: "map_of (intervals s) h' = Some (k, t')" and c: "\<not> (?cleared \<and> h' = h)"
      unfolding iv by (auto split: if_splits)
    show "h' < next_timer ?s' \<and> (\<exists>v. map_of (uploads ?s') k = Some v \<and> \<not> terminal (status v))"
    proof (cases "k = uploadId")
      case True
      then have "h' = h"
        using uniq [OF b] h by simp
      then have "\<not> ?cleared"
        using c by simp
      then show ?thesis
        unfolding up nt using live [OF b] True term' by simp
    next
      case False
      then show ?thesis
        unfolding up nt using live [OF b] by simp
    qed
  qed
  have 3: "\<forall>h1 h2 k t' t''. map_of (intervals ?s') h1 = Some (k, t') \<and>
             map_of (intervals ?s') h2 = Some (k, t'') \<longrightarrow> h1 = h2"
    unfolding iv using uniq by (auto split: if_splits)
  show ?thesis
    unfolding inv_def using 1 2 3 by blast
qed

lemma get_status_state [simp]: "snd (get_status cfg d uploadId s) = s"
  by (simp add: get_status_def Let_def split: option.splits sum.splits)

lemma list_uploads_state [simp]: "snd (list_uploads s) = s"
  by (simp add: list_uploads_def split: sum.splits)

lemma inv_step:
  assumes "inv s" and "ok_event s e"
  shows "inv (step cfg parse e s)"
proof (cases e)
  case (Post req d uploadId now)
  then show ?thesis
    using assms by (simp add: inv_post_uploads)
next
  case (GetStatus uploadId d)
  then show ?thesis
    using assms by simp
next
  case ListUploads
  then show ?thesis
    using assms by simp
next
  case (Tick h now now2 r)
  then show ?thesis
    using assms by (simp add: inv_interval_callback)
qed

lemma inv_run:
  "inv s \<Longrightarrow> ok_run cfg parse es s \<Longrightarrow> inv (run cfg parse es s)"
  by (induction es arbitrary: s) (simp_all add: inv_step)


subsection \<open>Terminal records are left alone\<close>

lemma terminal_kept_post_uploads:
  assumes "map_of (uploads s) uploadId = None" and "map_of (uploads s) k = Some u"
  shows "map_of (uploads (snd (post_uploads cfg parse d uploadId now req s))) k = Some u"
  using post_uploads_state [of cfg parse d uploadId now req s] assms
  by (auto simp: update_conv')

lemma terminal_kept_interval_callback:
  assumes "inv s" and "map_of (uploads s) k = Some u" and "terminal (status u)"
  shows "map_of (uploads (interval_callback h now now2 r s)) k = Some u"
proof (cases "map_of (intervals s) h")
  case None
  then show ?thesis
    using assms(2) by (simp add: interval_callback_def)
next
  case (Some p)
  obtain uploadId totalTime where h: "map_of (intervals s) h = Some (uploadId, totalTime)"
    using Some by (cases p) auto
  obtain v where v: "map_of (uploads s) uploadId = Some v" "\<not> terminal (status v)"
    using assms(1) h unfolding inv_def by blast
  then have "uploadId \<noteq> k"
    using assms(2,3) by auto
  then show ?thesis
    unfolding interval_callback_found [OF h v(1)] using assms(2) by (simp add: update_conv')
qed

lemma terminal_kept_step:
  assumes "inv s" and "ok_event s e" and "map_of (uploads s) k = Some u"
    and "terminal (status u)"
  shows "map_of (uploads (step cfg parse e s)) k = Some u"
proof (cases e)
  case (Post req d uploadId now)
  then show ?thesis
    using assms by (simp add: terminal_kept_post_uploads)
next
  case (GetStatus uploadId d)
  then show ?thesis
    using assms by simp
next
  case ListUploads
  then show ?thesis
    using assms by simp
next
  case (Tick h now now2 r)
  then show ?thesis
    using assms by (simp add: terminal_kept_interval_callback)
qed

lemma terminal_kept_run:
  assumes "inv s" and "ok_run cfg parse es s" and "map_of (uploads s) k = Some u"
    and "terminal (status u)"
  shows "map_of (uploads (run cfg parse es s)) k = Some u"
  using assms
proof (induction es arbitrary: s)
  case Nil
  then show ?case by simp
next
  case (Cons e es)
  have "inv (step cfg parse e s)"
    using Cons.prems(1,2) by (simp add: inv_step)
  moreover have "map_of (uploads (step cfg parse e s)) k = Some u"
    using Cons.prems by (simp add: terminal_kept_step)
  ultimately show ?case
    using Cons.IH Cons.prems(2,4) by simp
qed

lemma record_ok_fields:
  assumes "record_ok u"
  shows "(status u = Completed \<longrightarrow> transcript u \<noteq> None \<and> error u = None) \<and>
         (status u = Failed \<longrightarrow> error u \<noteq> None \<and> transcript u = None) \<and>
         (\<not> terminal (status u) \<longrightarrow> transcript u = None \<and> error u = None)"
  using assms by (cases "status u") (simp_all add: record_ok_def terminal_def)

text \<open>
  C5. In every state that a run of the server reaches, a completed record has a transcript
  and no error, a failed record has an error and no transcript, and a record that is not
  terminal has neither. Once a record is terminal, no further run of events changes it:
  the stored record, with all its fields, stays the same.
\<close>

theorem C5_terminal_fields_frozen:
  assumes "ok_run cfg parse es init_state"
    and "map_of (uploads (run cfg parse es init_state)) k = Some u"
  shows "(status u = Completed \<longrightarrow> transcript u \<noteq> None \<and> error u = None) \<and>
         (status u = Failed \<longrightarrow> error u \<noteq> None \<and> transcript u = None) \<and>
         (\<not> terminal (status u) \<longrightarrow> transcript u = None \<and> error u = None) \<and>
         (terminal (status u) \<longrightarrow>
            (\<forall>es'. ok_run cfg parse es' (run cfg parse es init_state) \<longrightarrow>
               map_of (uploads (run cfg parse es' (run cfg parse es init_state))) k = Some u))"
proof -
  have i: "inv (run cfg parse es init_state)"
    using inv_run [OF inv_init_state assms(1)] .
  then have "record_ok u"
    using assms(2) unfolding inv_def by blast
  then show ?thesis
    using record_ok_fields [of u] terminal_kept_run [OF i _ assms(2)] by blast
qed

lemma example_completion:
  "interval_callback 0 6000 6001 0 example_state = done_state"
proof -
  have a: "map_of (intervals example_state) 0 = Some (''u1'', 5000)"
    by (simp add: example_state_def)
  have b: "map_of (uploads example_state) ''u1'' = Some example_upload"
    by (simp add: example_state_def)
  have c: "js_ge (compute_progress 5000 (createdAt example_upload) 6000) 100"
    by (simp add: example_upload_simps example_progress_done)
  show ?thesis
    unfolding interval_callback_found [OF a b] tick_record_terminal [OF c]
    by (simp add: example_state_def done_state_def done_upload_def example_upload_simps)
qed

lemma example_run:
  "run CONFIG no_parse example_events init_state = done_state"
  by (simp add: example_events_def example_post example_completion)

lemma example_ok_run:
  "ok_run CONFIG no_parse example_events init_state"
  by (simp add: example_events_def init_state_def valid_time_def)

lemma done_run:
  "run cfg parse [Tick 0 7000 7001 0, ListUploads] done_state = done_state"
  by (simp add: interval_callback_def done_state_def)

theorem C5_terminal_fields_frozen_witness:
  "ok_run CONFIG no_parse example_events init_state \<and>
   map_of (uploads (run CONFIG no_parse example_events init_state)) ''u1'' = Some done_upload \<and>
   status done_upload = Completed \<and>
   transcript done_upload \<noteq> None \<and> error done_upload = None \<and>
   ok_run CONFIG no_parse [Tick 0 7000 7001 0, ListUploads]
     (run CONFIG no_parse example_events init_state) \<and>
   map_of (uploads (run CONFIG no_parse [Tick 0 7000 7001 0, ListUploads]
     (run CONFIG no_parse example_events init_state))) ''u1'' = Some done_upload"
proof -
  have a: "ok_run CONFIG no_parse example_events init_state"
    by (rule example_ok_run)
  have b: "map_of (uploads (run CONFIG no_parse example_events init_state)) ''u1'' = Some done_upload"
    by (simp add: example_run done_state_def)
  have c: "status done_upload = Completed"
    by (simp add: done_upload_def)
  have d: "ok_run CONFIG no_parse [Tick 0 7000 7001 0, ListUploads]
             (run CONFIG no_parse example_events init_state)"
    by (simp add: valid_time_def)
  note frozen = C5_terminal_fields_frozen [OF a b]
  have e: "transcript done_upload \<noteq> None" "error done_upload = None"
    using frozen c by simp_all
  have "terminal (status done_upload)"
    using c by (simp add: terminal_def)
  then have f: "map_of (uploads (run CONFIG no_parse [Tick 0 7000 7001 0, ListUploads]
      (run CONFIG no_parse example_events init_state))) ''u1'' = Some done_upload"
    using frozen d by blast
  show ?thesis
    using a b c d e f by blast
qed

subsection \<open>The status query never raises\<close>

lemma status_response_defined:
  assumes "record_ok u"
  shows "\<exists>b. status_response u = Inr b"
proof (cases "status u = Completed")
  case True
  then obtain t where "completedAt u = Some t" "valid_time t"
    using assms by (auto simp: record_ok_def split: option.splits)
  then show ?thesis
    using assms True by (simp add: status_response_def toISOString_def record_ok_def Let_def)
next
  case False
  then show ?thesis
    using assms by (simp add: status_response_def toISOString_def record_ok_def Let_def)
qed

lemma summaries_defined:
  assumes "\<forall>u \<in> set us. record_ok u"
  shows "\<exists>js. summaries us = Inr js"
  using assms
  by (induction us) (auto simp: summary_def toISOString_def record_ok_def)

lemma get_status_not_found:
  assumes "\<not> g_timeout d < timeoutRate cfg" and "map_of (uploads s) k = None"
  shows "get_status cfg d k s =
     (Inr \<lparr> code = 404, rbody = error_body ''Upload not found'',
            waited = (if g_slow d < 2 / 10 then 1000 + g_delay d * 2000 else 0) \<rparr>, s)"
  using assms by (simp add: get_status_def Let_def)

lemma get_status_found:
  assumes "\<not> g_timeout d < timeoutRate cfg" and "map_of (uploads s) k = Some u"
    and "status_response u = Inr b"
  shows "get_status cfg d k s =
     (Inr \<lparr> code = 200, rbody = b,
            waited = (if g_slow d < 2 / 10 then 1000 + g_delay d * 2000 else 0) \<rparr>, s)"
  using assms by (simp add: get_status_def Let_def)

lemma distinct_uploads_interval_callback:
  "distinct (map fst (uploads s)) \<Longrightarrow>
   distinct (map fst (uploads (interval_callback h now now2 r s)))"
  by (simp add: interval_callback_def distinct_update split_beta Let_def split: option.splits)

lemma distinct_uploads_step:
  assumes "distinct (map fst (uploads s))"
  shows "distinct (map fst (uploads (step cfg parse e s)))"
proof (cases e)
  case (Post req d uploadId now)
  then show ?thesis
    using assms post_uploads_state [of cfg parse d uploadId now req s]
    by (auto simp: distinct_update)
next
  case (Tick h now now2 r)
  then show ?thesis
    using assms by (simp add: distinct_uploads_interval_callback)
qed (use assms in simp_all)

lemma distinct_uploads_run:
  "distinct (map fst (uploads s)) \<Longrightarrow> distinct (map fst (uploads (run cfg parse es s)))"
  by (induction es arbitrary: s) (simp_all add: distinct_uploads_step)

text \<open>
  C7. A status query for an id that is not in the store, when the simulated timeout is not
  drawn, answers 404 with the body \<open>{error: 'Upload not found'}\<close> and leaves the state
  as it is. In every state that a run of the server reaches, the status query and the
  listing raise no exception: the status query answers 504 (simulated timeout), 404 (id
  absent) or 200 (id present), and the listing answers 200.
\<close>

theorem C7_not_found_defined:
  "(\<not> g_timeout d < timeoutRate cfg \<and> map_of (uploads s) k = None \<longrightarrow>
      get_status cfg d k s =
        (Inr \<lparr> code = 404, rbody = error_body ''Upload not found'',
               waited = (if g_slow d < 2 / 10 then 1000 + g_delay d * 2000 else 0) \<rparr>, s)) \<and>
   (ok_run cfg parse es init_state \<longrightarrow>
      (\<exists>resp. fst (get_status cfg d k (run cfg parse es init_state)) = Inr resp \<and>
         (code resp = 504 \<and> g_timeout d < timeoutRate cfg \<or>
          code resp = 404 \<and> map_of (uploads (run cfg parse es init_state)) k = None \<or>
          code resp = 200 \<and> map_of (uploads (run cfg parse es init_state)) k \<noteq> None)) \<and>
      (\<exists>resp. fst (list_uploads (run cfg parse es init_state)) = Inr resp \<and> code resp = 200))"
proof (intro conjI impI)
  assume "\<not> g_timeout d < timeoutRate cfg \<and> map_of (uploads s) k = None"
  then show "get_status cfg d k s =
        (Inr \<lparr> code = 404, rbody = error_body ''Upload not found'',
               waited = (if g_slow d < 2 / 10 then 1000 + g_delay d * 2000 else 0) \<rparr>, s)"
    by (simp add: get_status_not_found)
next
  let ?s = "run cfg parse es init_state"
  assume "ok_run cfg parse es init_state"
  then have i: "inv ?s"
    using inv_run [OF inv_init_state] by blast
  show "\<exists>resp. fst (get_status cfg d k ?s) = Inr resp \<and>
         (code resp = 504 \<and> g_timeout d < timeoutRate cfg \<or>
          code resp = 404 \<and> map_of (uploads ?s) k = None \<or>
          code resp = 200 \<and> map_of (uploads ?s) k \<noteq> None)"
  proof (cases "g_timeout d < timeoutRate cfg")
    case True
    then show ?thesis
      by (simp add: get_status_timeout)
  next
    case no_timeout: False
    show ?thesis
    proof (cases "map_of (uploads ?s) k")
      case None
      then show ?thesis
        using no_timeout by (simp add: get_status_not_found)
    next
      case (Some u)
      then have "record_ok u"
        using i unfolding inv_def by blast
      then obtain b where "status_response u = Inr b"
        using status_response_defined by blast
      then show ?thesis
        using no_timeout Some by (simp add: get_status_found)
    qed
  qed
  have "\<forall>u \<in> set (map snd (uploads ?s)). record_ok u"
  proof
    fix u
    assume "u \<in> set (map snd (uploads ?s))"
    then obtain k' where "(k', u) \<in> set (uploads ?s)"
      by auto
    then have "map_of (uploads ?s) k' = Some u"
      using distinct_uploads_run [of init_state cfg parse es] by (simp add: init_state_def)
    then show "record_ok u"
      using i unfolding inv_def by blast
  qed
  then obtain js where "summaries (map snd (uploads ?s)) = Inr js"
    using summaries_defined by blast
  then show "\<exists>resp. fst (list_uploads ?s) = Inr resp \<and> code resp = 200"
    by (simp add: list_uploads_def)
qed

theorem C7_not_found_defined_witness:
  "\<not> g_timeout example_get_draws < timeoutRate CONFIG \<and>
   map_of (uploads done_state) ''u9'' = None \<and>
   get_status CONFIG example_get_draws ''u9'' done_state =
     (Inr \<lparr> code = 404, rbody = error_body ''Upload not found'', waited = 0 \<rparr>, done_state) \<and>
   ok_run CONFIG no_parse example_events init_state \<and>
   (\<exists>resp. fst (get_status CONFIG example_get_draws ''u1''
              (run CONFIG no_parse example_events init_state)) = Inr resp \<and> code resp = 200) \<and>
   (\<exists>resp. fst (list_uploads (run CONFIG no_parse example_events init_state)) = Inr resp \<and>
           code resp = 200)"
proof -
  have a: "\<not> g_timeout example_get_draws < timeoutRate CONFIG"
      "\<not> g_slow example_get_draws < 2 / 10"
    by (simp_all add: example_get_draws_def CONFIG_def)
  have b: "map_of (uploads done_state) ''u9'' = None"
    by (simp add: done_state_def)
  have c: "ok_run CONFIG no_parse example_events init_state"
    by (rule example_ok_run)
  have d: "map_of (uploads (run CONFIG no_parse example_events init_state)) ''u1'' \<noteq> None"
    by (simp add: example_run done_state_def)
  show ?thesis
    using a b c d
      C7_not_found_defined [of example_get_draws CONFIG done_state "''u9''" no_parse example_events]
      C7_not_found_defined [of example_get_draws CONFIG done_state "''u1''" no_parse example_events]
    by auto
qed

subsection \<open>The ticks of one timer in a run of the server\<close>

text \<open>
  Firing timer \<open>h\<close> of record \<open>k\<close> with a list of clock readings and draws leaves in the
  store the last of the record states that \<open>run_ticks\<close> lists.
\<close>

lemma run_cleared_timer:
  assumes "map_of (intervals s) h = None"
  shows "run cfg parse (map (\<lambda>(now, now2, r). Tick h now now2 r) ts) s = s"
  using assms by (induction ts) (auto simp: interval_callback_def)

lemma run_ticks_in_run:
  assumes "map_of (intervals s) h = Some (k, totalTime)" and "map_of (uploads s) k = Some u"
  shows "map_of (uploads (run cfg parse (map (\<lambda>(now, now2, r). Tick h now now2 r) ts) s)) k =
           Some (last (u # run_ticks totalTime ts u))"
  using assms
proof (induction ts arbitrary: s u)
  case Nil
  then show ?case by simp
next
  case (Cons t ts)
  obtain now now2 r where t: "t = (now, now2, r)"
    by (cases t) auto
  let ?u' = "fst (tick_record totalTime now now2 r u)"
  let ?s' = "interval_callback h now now2 r s"
  have s': "?s' = s\<lparr> uploads := AList.update k ?u' (uploads s),
                     intervals := (if snd (tick_record totalTime now now2 r u)
                                   then AList.delete h (intervals s) else intervals s) \<rparr>"
    by (rule interval_callback_found [OF Cons.prems])
  have u': "map_of (uploads ?s') k = Some ?u'"
    unfolding s' by (simp add: update_conv')
  show ?case
  proof (cases "snd (tick_record totalTime now now2 r u)")
    case True
    then have "map_of (intervals ?s') h = None"
      unfolding s' by (simp add: delete_conv')
    then have "run cfg parse (map (\<lambda>(now, now2, r). Tick h now now2 r) ts) ?s' = ?s'"
      by (rule run_cleared_timer)
    then show ?thesis
      using u' by (simp add: t run_ticks_cleared [OF True] del: run_ticks.simps)
  next
    case False
    then have "map_of (intervals ?s') h = Some (k, totalTime)"
      unfolding s' using Cons.prems(1) by simp
    from Cons.IH [OF this u'] show ?thesis
      by (simp add: t run_ticks_running [OF False] del: run_ticks.simps)
  qed
qed

end
